theory Spec2Isabelle
  imports Complex_Main "HOL-Library.Word" "HOL-Library.Sublist"
begin

unbundle bit_operations_syntax

section \<open>Basic types\<close>

text \<open>
  The sources use \<^verbatim>\<open>uchar\<close> for one byte and \<^verbatim>\<open>vector<uchar>\<close> for byte
  buffers.  A byte is an 8-bit word, a buffer is a list of bytes.
\<close>

type_synonym uchar = "8 word"

section \<open>Compact5 driver (meter\_compact5.cc)\<close>

text \<open>
  The part of a \<^verbatim>\<open>Telegram\<close> that \<^verbatim>\<open>MeterCompact5::processContent\<close> touches:
  the already parsed bytes (only their number is used), the explanation list it appends
  to, and the payload that \<^verbatim>\<open>t->extractPayload(&content)\<close> hands out.  The body of
  \<^verbatim>\<open>extractPayload\<close> is not part of the sources at hand, so the telegram carries
  the extracted payload as a field.
\<close>

record Telegram =
  parsed :: "uchar list"
  explanations :: "(int \<times> string) list"
  payload :: "uchar list"

text \<open>
  The three energy members (\<^verbatim>\<open>total_energy_kwh_\<close> and so on; a name cannot end
  in an underscore here, so it is dropped) are C++ doubles, zero-initialised.  Every
  value the driver stores is an integer below \<open>2 ^ 17\<close>, which a double represents
  exactly, so the members are modelled as reals.
\<close>

record MeterCompact5 =
  total_energy_kwh :: real
  curr_energy_kwh :: real
  prev_energy_kwh :: real

definition MeterCompact5_init :: MeterCompact5 where
  "MeterCompact5_init =
     \<lparr>total_energy_kwh = 0, curr_energy_kwh = 0, prev_energy_kwh = 0\<rparr>"

text \<open>\<^verbatim>\<open>strprintf(s, "%02x%02x", lo, hi)\<close>: two lower-case hex digits per byte.\<close>

definition hexdigit :: "nat \<Rightarrow> char" where
  "hexdigit n = ''0123456789abcdef'' ! (n mod 16)"

definition fmt_02x :: "uchar \<Rightarrow> string" where
  "fmt_02x b = [hexdigit (unat b div 16), hexdigit (unat b mod 16)]"

text \<open>
  \<^verbatim>\<open>MeterCompact5::processContent\<close>.  The source indexes \<^verbatim>\<open>content[3]\<close>,
  \<^verbatim>\<open>content[4]\<close>, \<^verbatim>\<open>content[7]\<close> and \<^verbatim>\<open>content[8]\<close> without a length check;
  on a payload shorter than nine bytes that read is outside the vector (undefined
  behaviour in C++), which the model reports as \<open>None\<close>.  The local map
  \<^verbatim>\<open>vendor_values\<close> is written twice under the key "0215" and then dropped, so it
  leaves no trace in the result.
\<close>

definition MeterCompact5_processContent ::
  "Telegram \<Rightarrow> MeterCompact5 \<Rightarrow> (Telegram \<times> MeterCompact5) option" where
  "MeterCompact5_processContent t m =
     (let content = payload t in
      if length content < 9 then None
      else
        let prev_lo = content ! 3;
            prev_hi = content ! 4;
            prev = 256 * real (unat prev_hi) + real (unat prev_lo);
            prevs = fmt_02x prev_lo @ fmt_02x prev_hi;
            offset = int (length (parsed t)) + 3;
            t1 = t\<lparr>explanations := explanations t @ [(offset, prevs)]\<rparr>;
            curr_lo = content ! 7;
            curr_hi = content ! 8;
            curr = 256 * real (unat curr_hi) + real (unat curr_lo);
            currs = fmt_02x curr_lo @ fmt_02x curr_hi;
            offset2 = int (length (parsed t1)) + 7;
            t2 = t1\<lparr>explanations := explanations t1 @ [(offset2, currs)]\<rparr>
        in Some (t2, m\<lparr>total_energy_kwh := prev + curr,
                        curr_energy_kwh := curr,
                        prev_energy_kwh := prev\<rparr>))"


section \<open>Results of fallible code\<close>

text \<open>
  What can keep a modelled function from returning a value: a failed \<^verbatim>\<open>assert\<close>,
  a call of \<^verbatim>\<open>error(...)\<close> (which ends the process), a read or erase outside a
  vector (undefined behaviour in C++), and a loop that is still running when the modelled
  answers of the operating system are used up.
\<close>

datatype error = AssertionFailed | FatalError | OutOfRange | StillRunning

section \<open>Timers (serial.cc)\<close>

text \<open>
  \<^verbatim>\<open>struct Timer\<close>.  \<^verbatim>\<open>time_t\<close> values are seconds since the epoch as returned by
  \<^verbatim>\<open>time(NULL)\<close> and periods are small, so the sum \<^verbatim>\<open>last_call+seconds\<close> stays far
  from the 64-bit limit and is modelled on unbounded integers.  The member
  \<^verbatim>\<open>callback\<close> is client code: running it is recorded as the timer that was called.
\<close>

record Timer =
  timer_id :: int
  seconds :: int
  last_call :: int
  timer_name :: string

definition isTime :: "Timer \<Rightarrow> int \<Rightarrow> bool" where
  "isTime t now \<longleftrightarrow> last_call t + seconds t \<le> now"

text \<open>
  The loop of \<^verbatim>\<open>executeTimerCallbacks\<close> over \<^verbatim>\<open>timers_\<close> (by reference): a timer
  whose time has come gets \<^verbatim>\<open>last_call = curr\<close> and a copy of it is pushed to
  \<^verbatim>\<open>to_be_called\<close>.  The result is the updated timer list and \<^verbatim>\<open>to_be_called\<close>.
\<close>

fun collect_timers :: "int \<Rightarrow> Timer list \<Rightarrow> Timer list \<Rightarrow> Timer list \<times> Timer list" where
  "collect_timers cur [] to_be_called = ([], to_be_called)"
| "collect_timers cur (t # ts) to_be_called =
     (if isTime t cur
      then (let t' = t\<lparr>last_call := cur\<rparr>;
                (ts', called) = collect_timers cur ts (to_be_called @ [t'])
            in (t' # ts', called))
      else (let (ts', called) = collect_timers cur ts to_be_called
            in (t # ts', called)))"

text \<open>
  \<^verbatim>\<open>executeTimerCallbacks\<close>, with \<open>cur\<close> the value of \<^verbatim>\<open>curr\<close>, that is of \<^verbatim>\<open>time(NULL)\<close>: the new
  \<^verbatim>\<open>timers_\<close> and the timers whose callback is invoked, in the order of invocation.
\<close>

definition executeTimerCallbacks :: "int \<Rightarrow> Timer list \<Rightarrow> Timer list \<times> Timer list" where
  "executeTimerCallbacks cur timers = collect_timers cur timers []"

section \<open>Byte sources (serial.cc)\<close>

text \<open>
  The four implementations of \<^verbatim>\<open>SerialDevice\<close>.  One record holds the members of
  \<^verbatim>\<open>SerialDeviceImp\<close> and of its subclasses that the modelled methods read or write
  (\<open>m_fd\<close> is \<^verbatim>\<open>fd_\<close>, and so on: the methods \<^verbatim>\<open>fd()\<close>, \<^verbatim>\<open>resetting()\<close> keep
  the plain names).  The two callbacks \<^verbatim>\<open>on_data_\<close> and \<^verbatim>\<open>on_disappear_\<close> are client
  code; the record only says whether one is installed.  The \<open>os_\<close> fields are what the
  operating system answers when \<^verbatim>\<open>working()\<close> asks: whether the character device
  still exists (\<^verbatim>\<open>checkCharacterDeviceExists\<close>), the return code and the byte count of
  \<^verbatim>\<open>ioctl(fd_, FIONREAD, &n)\<close>, and whether the child process still runs
  (\<^verbatim>\<open>stillRunning(pid_)\<close>).
\<close>

datatype DeviceKind = KindTTY | KindCommand | KindFile | KindSimulator

record SerialDevice =
  kind :: DeviceKind
  m_fd :: int
  m_resetting :: bool
  m_no_callbacks :: bool
  m_is_file :: bool
  m_is_stdin :: bool
  m_pid :: int
  m_on_data :: bool
  m_on_disappear :: bool
  os_device_exists :: bool
  os_ioctl_rc :: int
  os_fionread :: int
  os_still_running :: bool

text \<open>
  A device as its constructor leaves it: \<^verbatim>\<open>fd_ = -2\<close> (not yet opened), no callback
  installed; around it a system in which the device exists and \<^verbatim>\<open>ioctl\<close> succeeds.
\<close>

definition new_device :: "DeviceKind \<Rightarrow> SerialDevice" where
  "new_device k =
     \<lparr>kind = k, m_fd = -2, m_resetting = False, m_no_callbacks = False,
      m_is_file = False, m_is_stdin = False, m_pid = 0,
      m_on_data = False, m_on_disappear = False,
      os_device_exists = True, os_ioctl_rc = 0, os_fionread = 0, os_still_running = False\<rparr>"

definition skippingCallbacks :: "SerialDevice \<Rightarrow> bool" where
  "skippingCallbacks d = m_no_callbacks d"

definition resetting :: "SerialDevice \<Rightarrow> bool" where
  "resetting d = m_resetting d"

definition opened :: "SerialDevice \<Rightarrow> bool" where
  "opened d \<longleftrightarrow> m_resetting d \<or> m_fd d \<noteq> -2"

definition isClosed :: "SerialDevice \<Rightarrow> bool" where
  "isClosed d \<longleftrightarrow> m_fd d = -1 \<and> \<not> m_resetting d"

text \<open>\<^verbatim>\<open>readonly()\<close>; the simulator overrides it with \<^verbatim>\<open>return true\<close>.\<close>

definition readonly :: "SerialDevice \<Rightarrow> bool" where
  "readonly d = (case kind d of
       KindSimulator \<Rightarrow> True
     | _ \<Rightarrow> m_is_stdin d \<or> m_is_file d)"

text \<open>\<^verbatim>\<open>fd()\<close>; the simulator overrides it with \<^verbatim>\<open>return -1\<close>.\<close>

definition fd :: "SerialDevice \<Rightarrow> int" where
  "fd d = (case kind d of KindSimulator \<Rightarrow> -1 | _ \<Rightarrow> m_fd d)"

text \<open>\<^verbatim>\<open>working()\<close>, overridden in each of the four subclasses.\<close>

definition working :: "SerialDevice \<Rightarrow> bool" where
  "working d = (case kind d of
       KindTTY \<Rightarrow>
         (if m_resetting d then True
          else if m_fd d = -1 then False
          else os_device_exists d)
     | KindCommand \<Rightarrow>
         (if m_resetting d then True
          else if m_fd d = -1 then False
          else if os_ioctl_rc d \<noteq> 0 then False
          else if os_fionread d > 0 then True
          else if m_pid d = 0 then False
          else os_still_running d)
     | KindFile \<Rightarrow>
         (if m_resetting d then True
          else if m_fd d = -1 then False
          else if os_ioctl_rc d \<noteq> 0 then False
          else True)
     | KindSimulator \<Rightarrow> False)"

definition resetInitiated :: "SerialDevice \<Rightarrow> SerialDevice" where
  "resetInitiated d = d\<lparr>m_resetting := True\<rparr>"

definition resetCompleted :: "SerialDevice \<Rightarrow> SerialDevice" where
  "resetCompleted d = d\<lparr>m_resetting := False\<rparr>"

subsection \<open>close\<close>

text \<open>
  Each \<^verbatim>\<open>close()\<close> returns the device after the call and the number of times it
  invoked \<^verbatim>\<open>on_disappear_\<close>.  (Releasing the lock, closing the descriptor and tickling
  the event loop change nothing in the record.)
\<close>

definition SerialDeviceTTY_close :: "SerialDevice \<Rightarrow> SerialDevice \<times> nat" where
  "SerialDeviceTTY_close d =
     (if m_fd d = -1 then (d, 0)
      else let d1 = d\<lparr>m_fd := -1\<rparr>
           in if m_on_disappear d1 \<and> \<not> m_resetting d1
              then (d1\<lparr>m_on_disappear := False\<rparr>, 1)
              else (d1, 0))"

definition SerialDeviceCommand_close :: "SerialDevice \<Rightarrow> SerialDevice \<times> nat" where
  "SerialDeviceCommand_close d =
     (if m_pid d = 0 \<and> m_fd d = -1 then (d, 0)
      else let d1 = (if m_pid d \<noteq> 0 \<and> os_still_running d then d\<lparr>m_pid := 0\<rparr> else d);
               (d2, n) = (if m_on_disappear d1 \<and> \<not> m_resetting d1
                          then (d1\<lparr>m_on_disappear := False\<rparr>, 1::nat)
                          else (d1, 0))
           in (d2\<lparr>m_fd := -1\<rparr>, n))"

definition SerialDeviceFile_close :: "SerialDevice \<Rightarrow> SerialDevice \<times> nat" where
  "SerialDeviceFile_close d =
     (if m_fd d = -1 then (d, 0) else (d\<lparr>m_fd := -1\<rparr>, 0))"

definition SerialDeviceSimulator_close :: "SerialDevice \<Rightarrow> SerialDevice \<times> nat" where
  "SerialDeviceSimulator_close d = (d, 0)"

definition close :: "SerialDevice \<Rightarrow> SerialDevice \<times> nat" where
  "close d = (case kind d of
       KindTTY \<Rightarrow> SerialDeviceTTY_close d
     | KindCommand \<Rightarrow> SerialDeviceCommand_close d
     | KindFile \<Rightarrow> SerialDeviceFile_close d
     | KindSimulator \<Rightarrow> SerialDeviceSimulator_close d)"

subsection \<open>send\<close>

text \<open>
  What one call of \<^verbatim>\<open>write(fd_, &data[written], n-written)\<close> can answer: the kernel
  takes some bytes (\<open>Accepts k\<close>: it has room for \<open>k\<close> bytes and returns the smaller of
  \<open>k\<close> and the count it was given), or it fails with an \<^verbatim>\<open>errno\<close>.
\<close>

datatype Errno = EINTR | EAGAIN | EBADF | EIO

datatype WriteResult = Accepts nat | WriteFails Errno

text \<open>
  The \<^verbatim>\<open>while (true)\<close> loop of \<^verbatim>\<open>SerialDeviceTTY::send\<close>, one answer of the kernel per
  round; \<open>out\<close> collects the bytes the kernel took.  \<^verbatim>\<open>nw > 0\<close> advances
  \<^verbatim>\<open>written\<close>, \<^verbatim>\<open>EINTR\<close> tries again, any other error ends the call with
  \<^verbatim>\<open>rc = false\<close>, and \<^verbatim>\<open>written == n\<close> leaves the loop.
\<close>

fun send_loop :: "WriteResult list \<Rightarrow> uchar list \<Rightarrow> nat \<Rightarrow> uchar list \<Rightarrow> error + (bool \<times> uchar list)" where
  "send_loop [] data written out = Inl StillRunning"
| "send_loop (Accepts k # os) data written out =
     (let nw = min k (length data - written);
          written' = written + nw;
          out' = out @ take nw (drop written data)
      in if written' = length data then Inr (True, out')
         else send_loop os data written' out')"
| "send_loop (WriteFails e # os) data written out =
     (if e = EINTR then send_loop os data written out
      else Inr (False, out))"

text \<open>How many bytes an answer of the kernel makes room for.\<close>

fun room :: "WriteResult \<Rightarrow> nat" where
  "room (Accepts k) = k"
| "room (WriteFails e) = 0"

definition SerialDeviceTTY_send :: "WriteResult list \<Rightarrow> uchar list \<Rightarrow> error + (bool \<times> uchar list)" where
  "SerialDeviceTTY_send os data =
     (if data = [] then Inl AssertionFailed else send_loop os data 0 [])"

text \<open>\<^verbatim>\<open>SerialDeviceCommand::send\<close> runs the same loop on the pipe.\<close>

definition SerialDeviceCommand_send :: "WriteResult list \<Rightarrow> uchar list \<Rightarrow> error + (bool \<times> uchar list)" where
  "SerialDeviceCommand_send os data =
     (if data = [] then Inl AssertionFailed else send_loop os data 0 [])"

definition SerialDeviceFile_send :: "WriteResult list \<Rightarrow> uchar list \<Rightarrow> error + (bool \<times> uchar list)" where
  "SerialDeviceFile_send os data = Inr (True, [])"

definition SerialDeviceSimulator_send :: "WriteResult list \<Rightarrow> uchar list \<Rightarrow> error + (bool \<times> uchar list)" where
  "SerialDeviceSimulator_send os data = Inr (True, [])"

text \<open>
  The virtual call \<^verbatim>\<open>serial->send(data)\<close>: the return value and the bytes that
  reached the descriptor.
\<close>

definition send :: "SerialDevice \<Rightarrow> WriteResult list \<Rightarrow> uchar list \<Rightarrow> error + (bool \<times> uchar list)" where
  "send d os data = (case kind d of
       KindTTY \<Rightarrow> SerialDeviceTTY_send os data
     | KindCommand \<Rightarrow> SerialDeviceCommand_send os data
     | KindFile \<Rightarrow> SerialDeviceFile_send os data
     | KindSimulator \<Rightarrow> SerialDeviceSimulator_send os data)"

subsection \<open>Sequences of calls on one source\<close>

text \<open>
  The calls a client or the manager can make on a source that decide whether
  \<^verbatim>\<open>on_disappear_\<close> runs, and a run of such calls in order, counting the invocations of
  the callback.
\<close>

datatype DeviceCall = CallClose | CallResetInitiated | CallResetCompleted

fun call :: "DeviceCall \<Rightarrow> SerialDevice \<Rightarrow> SerialDevice \<times> nat" where
  "call CallClose d = close d"
| "call CallResetInitiated d = (resetInitiated d, 0)"
| "call CallResetCompleted d = (resetCompleted d, 0)"

fun calls :: "DeviceCall list \<Rightarrow> SerialDevice \<Rightarrow> SerialDevice \<times> nat" where
  "calls [] d = (d, 0)"
| "calls (c # cs) d =
     (let (d1, n1) = call c d;
          (d2, n2) = calls cs d1
      in (d2, n1 + n2))"

section \<open>The manager (serial.cc)\<close>

text \<open>
  The members of \<^verbatim>\<open>SerialCommunicationManagerImp\<close> that the event loop reads or
  writes, and what the loop does to the outside: \<open>notified\<close> lists the sources whose
  \<^verbatim>\<open>on_data_\<close> callback was invoked, in order, and \<open>disappeared\<close> counts the invocations
  of \<^verbatim>\<open>on_disappear_\<close>.
\<close>

record Manager =
  running :: bool
  expect_devices_to_work :: bool
  serial_devices :: "SerialDevice list"
  notified :: "SerialDevice list"
  disappeared :: nat

definition expectDevicesToWork :: "Manager \<Rightarrow> Manager" where
  "expectDevicesToWork m = m\<lparr>expect_devices_to_work := True\<rparr>"

text \<open>\<^verbatim>\<open>stop()\<close>; the signals it sends to the threads are not part of the state.\<close>

definition stop :: "Manager \<Rightarrow> Manager" where
  "stop m = (if running m then m\<lparr>running := False\<rparr> else m)"

definition isRunning :: "Manager \<Rightarrow> bool" where
  "isRunning m = running m"

text \<open>The erase loop of \<^verbatim>\<open>removeNonWorkingSerialDevices\<close>.\<close>

fun erase_non_working :: "SerialDevice list \<Rightarrow> SerialDevice list" where
  "erase_non_working [] = []"
| "erase_non_working (d # ds) =
     (if opened d \<and> \<not> working d then erase_non_working ds
      else d # erase_non_working ds)"

definition removeNonWorkingSerialDevices :: "Manager \<Rightarrow> Manager" where
  "removeNonWorkingSerialDevices m =
     (let m1 = m\<lparr>serial_devices := erase_non_working (serial_devices m)\<rparr>
      in if length (serial_devices m1) = 0 \<and> expect_devices_to_work m1 then stop m1 else m1)"

text \<open>
  The first loop of a round of \<^verbatim>\<open>eventLoop\<close>: it fills \<^verbatim>\<open>readfds\<close> (\<^verbatim>\<open>FD_SET\<close>) and
  computes \<^verbatim>\<open>all_working\<close>.  The descriptor set is a list of descriptors.
\<close>

fun list_descriptors :: "SerialDevice list \<Rightarrow> int list \<times> bool \<Rightarrow> int list \<times> bool" where
  "list_descriptors [] (readfds, all_working) = (readfds, all_working)"
| "list_descriptors (sd # sds) (readfds, all_working) =
     (let readfds1 =
            (if opened sd \<and> working sd \<and> \<not> skippingCallbacks sd
             then (if \<not> resetting sd \<and> fd sd \<ge> 0 then readfds @ [fd sd] else readfds)
             else readfds);
          all_working1 = (if opened sd \<and> \<not> working sd then False else all_working)
      in list_descriptors sds (readfds1, all_working1))"

text \<open>
  What \<^verbatim>\<open>select\<close> answers: its return value and the descriptors that are ready; it
  leaves in \<^verbatim>\<open>readfds\<close> the descriptors of the request that are ready.
  \<open>stopped_meanwhile\<close> tells whether another thread called \<^verbatim>\<open>stop()\<close> while the loop
  was waiting.
\<close>

record SelectResult =
  activity :: int
  ready :: "int list"
  stopped_meanwhile :: bool

text \<open>The loop that collects \<^verbatim>\<open>to_be_notified\<close> (\<^verbatim>\<open>FD_ISSET\<close> on the answer).\<close>

fun find_triggering :: "int list \<Rightarrow> SerialDevice list \<Rightarrow> SerialDevice list" where
  "find_triggering readfds [] = []"
| "find_triggering readfds (sd # sds) =
     (if opened sd \<and> working sd \<and> \<not> resetting sd \<and> fd sd \<ge> 0
      then (if fd sd \<in> set readfds then sd # find_triggering readfds sds
            else find_triggering readfds sds)
      else find_triggering readfds sds)"

text \<open>The loop that invokes \<^verbatim>\<open>on_data_\<close> where one is installed.\<close>

fun notify :: "SerialDevice list \<Rightarrow> SerialDevice list" where
  "notify [] = []"
| "notify (sd # sds) = (if m_on_data sd then sd # notify sds else notify sds)"

text \<open>
  The loops that collect \<^verbatim>\<open>non_working\<close> and close each of its members.  The members
  are the very objects of \<^verbatim>\<open>serial_devices_\<close>, so closing them changes the list in
  place.
\<close>

fun find_non_working :: "SerialDevice list \<Rightarrow> SerialDevice list" where
  "find_non_working [] = []"
| "find_non_working (sd # sds) =
     (if opened sd \<and> \<not> working sd \<and> \<not> isClosed sd then sd # find_non_working sds
      else find_non_working sds)"

fun close_non_working :: "SerialDevice list \<Rightarrow> SerialDevice list \<times> nat" where
  "close_non_working [] = ([], 0)"
| "close_non_working (sd # sds) =
     (let (sds', k) = close_non_working sds
      in if opened sd \<and> \<not> working sd \<and> \<not> isClosed sd
         then (let (sd', j) = close sd in (sd' # sds', j + k))
         else (sd # sds', k))"

text \<open>
  The block under \<^verbatim>\<open>if (activity > 0)\<close>: collect the sources whose descriptor is
  ready and invoke their \<^verbatim>\<open>on_data_\<close> callbacks.  The callbacks are client code;
  \<open>cb\<close> is what the callbacks that were invoked did to the list of sources.
\<close>

definition deliver ::
  "(SerialDevice list \<Rightarrow> SerialDevice list) \<Rightarrow> SelectResult \<Rightarrow> int list \<Rightarrow> Manager \<Rightarrow> Manager" where
  "deliver cb sel readfds m =
     (let to_be_notified =
            (if activity sel > 0 then find_triggering readfds (serial_devices m) else []);
          called = notify to_be_notified
      in if called = [] then m
         else m\<lparr>notified := notified m @ called, serial_devices := cb (serial_devices m)\<rparr>)"

text \<open>
  The end of a round: close the sources found not working, remove the closed ones, and
  stop when a source was found not working and the devices are expected to work.  The
  result is the manager and whether the loop goes on to test \<^verbatim>\<open>running_\<close> again
  (\<open>False\<close>: it left through \<^verbatim>\<open>break\<close>).
\<close>

definition sweep :: "Manager \<Rightarrow> Manager \<times> bool" where
  "sweep m =
     (let non_working = find_non_working (serial_devices m);
          (devs, k) = close_non_working (serial_devices m);
          m1 = m\<lparr>serial_devices := devs, disappeared := disappeared m + k\<rparr>;
          m2 = removeNonWorkingSerialDevices m1
      in if length non_working > 0 \<and> expect_devices_to_work m2 then (stop m2, False)
         else (m2, True))"

text \<open>
  One round of the \<^verbatim>\<open>while (running_)\<close> loop of \<^verbatim>\<open>eventLoop\<close>, entered with
  \<^verbatim>\<open>running_\<close> true.
\<close>

definition eventLoop_round ::
  "(SerialDevice list \<Rightarrow> SerialDevice list) \<Rightarrow> SelectResult \<Rightarrow> Manager \<Rightarrow> Manager \<times> bool" where
  "eventLoop_round cb sel m =
     (let (readfds, all_working) = list_descriptors (serial_devices m) ([], True)
      in if \<not> all_working \<and> expect_devices_to_work m then (stop m, False)
         else
           let readfds' = filter (\<lambda>f. f \<in> set (ready sel)) readfds;
               m1 = (if stopped_meanwhile sel then stop m else m)
           in if \<not> running m1 then (m1, False)
              else sweep (deliver cb sel readfds' m1))"

text \<open>
  \<^verbatim>\<open>eventLoop\<close>: rounds as long as \<^verbatim>\<open>running_\<close> holds, one answer of \<^verbatim>\<open>select\<close> per
  round.
\<close>

fun eventLoop ::
  "(SerialDevice list \<Rightarrow> SerialDevice list) \<Rightarrow> SelectResult list \<Rightarrow> Manager \<Rightarrow> error + Manager" where
  "eventLoop cb [] m = (if running m then Inl StillRunning else Inr m)"
| "eventLoop cb (sel # sels) m =
     (if \<not> running m then Inr m
      else (let (m', goes_on) = eventLoop_round cb sel m
            in if goes_on then eventLoop cb sels m' else Inr m'))"

section \<open>Raw M-Bus device (mbus\_rawtty.cc)\<close>

text \<open>
  \<^verbatim>\<open>enum class ContentStartsWith\<close> is declared outside the sources at hand;
  \<^verbatim>\<open>sendTelegram\<close> tells \<^verbatim>\<open>SHORT_FRAME\<close> and \<^verbatim>\<open>LONG_FRAME\<close> from every other
  enumerator, which \<open>OTHER_START\<close> stands for.
\<close>

datatype ContentStartsWith = SHORT_FRAME | LONG_FRAME | OTHER_START

text \<open>The loop that copies the content into the message and sums the bytes in a \<^verbatim>\<open>uchar\<close>.\<close>

fun copy_and_sum :: "uchar list \<Rightarrow> uchar list \<Rightarrow> uchar \<Rightarrow> uchar list \<times> uchar" where
  "copy_and_sum [] msg crc = (msg, crc)"
| "copy_and_sum (c # cs) msg crc = copy_and_sum cs (msg @ [c]) (crc + c)"

text \<open>
  \<^verbatim>\<open>MBusRawTTY::sendTelegram\<close> on the serial device \<open>d\<close>: the return value and the
  bytes that reached the descriptor.  \<^verbatim>\<open>(uchar)content.size()\<close> keeps the low eight
  bits of the size.
\<close>

definition sendTelegram ::
  "SerialDevice \<Rightarrow> WriteResult list \<Rightarrow> ContentStartsWith \<Rightarrow> uchar list \<Rightarrow> error + (bool \<times> uchar list)" where
  "sendTelegram d os starts_with content =
     (if readonly d then Inr (True, [])
      else if length content > 250 then Inr (False, [])
      else
        (case (case starts_with of
                 SHORT_FRAME \<Rightarrow> Some [0x10]
               | LONG_FRAME \<Rightarrow> Some [0x68, of_nat (length content), of_nat (length content), 0x68]
               | OTHER_START \<Rightarrow> None) of
           None \<Rightarrow> Inr (False, [])
         | Some msg0 \<Rightarrow>
             (let (msg1, crc) = copy_and_sum content msg0 0;
                  msg = msg1 @ [crc] @ [0x16]
              in case send d os msg of
                   Inl e \<Rightarrow> Inl e
                 | Inr (sent, out) \<Rightarrow> if \<not> sent then Inr (False, out) else Inr (True, out))))"

subsection \<open>processSerialData\<close>

text \<open>
  \<^verbatim>\<open>checkMBusFrame(read_buffer_, &frame_length, &payload_len, &payload_offset)\<close> is
  defined outside the sources at hand.  It is a parameter of the model: a function from
  the buffer to the status and the three numbers it stores through its pointers.
\<close>

datatype FrameStatus = PartialFrame | FullFrame | ErrorInFrame

record FrameCheck =
  status :: FrameStatus
  frame_length :: nat
  payload_len :: int
  payload_offset :: int

type_synonym checker = "uchar list \<Rightarrow> FrameCheck"

text \<open>
  The state of an \<^verbatim>\<open>MBusRawTTY\<close> that \<^verbatim>\<open>processSerialData\<close> works on: the member
  \<^verbatim>\<open>read_buffer_\<close>, and what the call does to the outside: the payloads handed to
  \<^verbatim>\<open>handleTelegram\<close> in order, and the buffers reported as protocol errors.
\<close>

record MBusRawTTY =
  read_buffer :: "uchar list"
  handled :: "uchar list list"
  protocol_errors :: "uchar list list"

text \<open>
  The payload built for a full frame: the length byte (\<^verbatim>\<open>uchar l = payload_len\<close>)
  followed by \<^verbatim>\<open>payload_len\<close> bytes from \<^verbatim>\<open>payload_offset\<close> on.  A range that leaves
  the buffer is undefined behaviour in the source.
\<close>

definition frame_payload :: "FrameCheck \<Rightarrow> uchar list \<Rightarrow> error + uchar list" where
  "frame_payload c buf =
     (if 0 < payload_len c
      then (if payload_offset c < 0 \<or> int (length buf) < payload_offset c + payload_len c
            then Inl OutOfRange
            else Inr ((of_int (payload_len c) :: uchar)
                      # take (nat (payload_len c)) (drop (nat (payload_offset c)) buf)))
      else Inr [])"

text \<open>
  The \<^verbatim>\<open>for (;;)\<close> loop.  Nothing in the source bounds it, so the model counts the
  rounds: \<open>frame_loop check n\<close> runs at most \<open>n\<close> rounds and answers
  \<open>Inl StillRunning\<close> when the loop has not left by then.
\<close>

fun frame_loop :: "checker \<Rightarrow> nat \<Rightarrow> MBusRawTTY \<Rightarrow> error + MBusRawTTY" where
  "frame_loop check 0 s = Inl StillRunning"
| "frame_loop check (Suc n) s =
     (let c = check (read_buffer s) in
      case status c of
        PartialFrame \<Rightarrow> Inr s
      | ErrorInFrame \<Rightarrow>
          Inr (s\<lparr>protocol_errors := protocol_errors s @ [read_buffer s], read_buffer := []\<rparr>)
      | FullFrame \<Rightarrow>
          (case frame_payload c (read_buffer s) of
             Inl e \<Rightarrow> Inl e
           | Inr p \<Rightarrow>
               if length (read_buffer s) < frame_length c then Inl OutOfRange
               else frame_loop check n
                      (s\<lparr>read_buffer := drop (frame_length c) (read_buffer s),
                         handled := handled s @ [p]\<rparr>)))"

text \<open>
  \<^verbatim>\<open>MBusRawTTY::processSerialData\<close>, \<open>data\<close> being what \<^verbatim>\<open>serial()->receive\<close>
  delivered.
\<close>

definition processSerialData :: "checker \<Rightarrow> nat \<Rightarrow> uchar list \<Rightarrow> MBusRawTTY \<Rightarrow> error + MBusRawTTY" where
  "processSerialData check n data s =
     frame_loop check n (s\<lparr>read_buffer := read_buffer s @ data\<rparr>)"

section \<open>Simulator (wmbus\_simulator.cc)\<close>

text \<open>
  \<^verbatim>\<open>atoi\<close> as the GNU C library has it: \<^verbatim>\<open>(int) strtol(s, NULL, 10)\<close>.
  \<^verbatim>\<open>strtol\<close> skips white space, takes an optional sign and then decimal digits up to
  the first other character; a number beyond the range of \<^verbatim>\<open>long\<close> (64 bits) is
  answered with \<^verbatim>\<open>LONG_MAX\<close> or \<^verbatim>\<open>LONG_MIN\<close>.  The conversion to \<^verbatim>\<open>int\<close>
  keeps the low 32 bits, read as two's complement.  \<open>strtol_value\<close> is the number as
  written, before any of this.
\<close>

definition isspace_char :: "char \<Rightarrow> bool" where
  "isspace_char c \<longleftrightarrow> (of_char c :: nat) \<in> {9, 10, 11, 12, 13, 32}"

definition isdigit_char :: "char \<Rightarrow> bool" where
  "isdigit_char c \<longleftrightarrow> 48 \<le> (of_char c :: nat) \<and> (of_char c :: nat) \<le> 57"

fun digits_value :: "int \<Rightarrow> string \<Rightarrow> int" where
  "digits_value acc [] = acc"
| "digits_value acc (c # cs) =
     (if isdigit_char c then digits_value (10 * acc + int (of_char c - 48)) cs else acc)"

definition strtol_value :: "string \<Rightarrow> int" where
  "strtol_value s = (case dropWhile isspace_char s of
       [] \<Rightarrow> 0
     | c # cs \<Rightarrow>
         if c = CHR ''-'' then - digits_value 0 cs
         else if c = CHR ''+'' then digits_value 0 cs
         else digits_value 0 (c # cs))"

definition strtol :: "string \<Rightarrow> int" where
  "strtol s = max (- (2 ^ 63)) (min (2 ^ 63 - 1) (strtol_value s))"

definition atoi :: "string \<Rightarrow> int" where
  "atoi s = sint (word_of_int (strtol s) :: 32 word)"

text \<open>
  The inner \<^verbatim>\<open>for\<close> loop of \<^verbatim>\<open>simulate\<close> over the characters from index 9 on: the
  collected \<^verbatim>\<open>hex\<close> and, when a \<open>+\<close> was found, \<^verbatim>\<open>rel_time\<close> (the \<^verbatim>\<open>int\<close> of
  \<^verbatim>\<open>atoi\<close> widened to \<^verbatim>\<open>time_t\<close>).  (\<^verbatim>\<open>found_time\<close> is the
  index of the \<open>+\<close>, at least 9, so it is non-zero exactly when a \<open>+\<close> was found.)
\<close>

fun scan_line :: "string \<Rightarrow> string \<times> int option" where
  "scan_line [] = ([], None)"
| "scan_line (c # cs) =
     (if c = CHR ''|'' then scan_line cs
      else if c = CHR ''+'' then ([], Some (atoi cs))
      else (let (hex, found) = scan_line cs in (c # hex, found)))"

text \<open>
  What \<^verbatim>\<open>simulate\<close> does to the outside, in order: a payload handed to
  \<^verbatim>\<open>handleTelegram\<close>, stamped with the latest time the function had read from the clock
  by then, and the call of \<^verbatim>\<open>manager_->stop()\<close>.
\<close>

datatype SimEvent = Handled "uchar list" int | Stopped

text \<open>
  The world around \<^verbatim>\<open>simulate\<close>: the answers \<^verbatim>\<open>time(NULL)\<close> and
  \<^verbatim>\<open>manager_->isRunning()\<close> will give, in the order of the calls, the latest time read,
  and the events so far.
\<close>

record SimWorld =
  clock :: "int list"
  polls :: "bool list"
  last_time :: int
  events :: "SimEvent list"

text \<open>
  The waiting loop: read the clock, leave when it is past the deadline, else sleep a
  second and leave when the manager no longer runs.  The result is the clock and the
  polls that are left and the last time read.
\<close>

fun wait_loop :: "int \<Rightarrow> int list \<Rightarrow> bool list \<Rightarrow> error + (int list \<times> bool list \<times> int)" where
  "wait_loop deadline [] ps = Inl StillRunning"
| "wait_loop deadline (c # cs) ps =
     (if c > deadline then Inr (cs, ps, c)
      else (case ps of
              [] \<Rightarrow> Inl StillRunning
            | p # ps' \<Rightarrow> if \<not> p then Inr (cs, ps', c) else wait_loop deadline cs ps'))"

text \<open>The block under \<^verbatim>\<open>if (found_time)\<close>.\<close>

definition wait_for :: "int \<Rightarrow> int \<Rightarrow> SimWorld \<Rightarrow> error + SimWorld" where
  "wait_for start_time rel_time w =
     (case clock w of
        [] \<Rightarrow> Inl StillRunning
      | c # cs \<Rightarrow>
          if c < start_time + rel_time
          then (case wait_loop (start_time + rel_time) cs (polls w) of
                  Inl e \<Rightarrow> Inl e
                | Inr (cs', ps', t) \<Rightarrow> Inr (w\<lparr>clock := cs', polls := ps', last_time := t\<rparr>))
          else Inr (w\<lparr>clock := cs, last_time := c\<rparr>))"

text \<open>
  The loop of \<^verbatim>\<open>simulate\<close> over the lines.  \<^verbatim>\<open>hex2bin\<close> is defined outside the
  sources at hand and is a parameter; when it fails, \<^verbatim>\<open>error(...)\<close> ends the process.
\<close>

fun simulate_lines ::
  "(string \<Rightarrow> uchar list option) \<Rightarrow> int \<Rightarrow> string list \<Rightarrow> SimWorld \<Rightarrow> error + SimWorld" where
  "simulate_lines hex2bin start_time [] w = Inr w"
| "simulate_lines hex2bin start_time (l # ls) w =
     (if take 9 l = ''telegram=''
      then (let (hex, found) = scan_line (drop 9 l)
            in case (case found of
                       Some rel_time \<Rightarrow> wait_for start_time rel_time w
                     | None \<Rightarrow> Inr w) of
                 Inl e \<Rightarrow> Inl e
               | Inr w1 \<Rightarrow>
                   (case hex2bin hex of
                      None \<Rightarrow> Inl FatalError
                    | Some p \<Rightarrow>
                        simulate_lines hex2bin start_time ls
                          (w1\<lparr>events := events w1 @ [Handled p (last_time w1)]\<rparr>)))
      else simulate_lines hex2bin start_time ls w)"

text \<open>\<^verbatim>\<open>WMBusSimulator::simulate\<close> on the lines of the script.\<close>

definition simulate ::
  "(string \<Rightarrow> uchar list option) \<Rightarrow> string list \<Rightarrow> SimWorld \<Rightarrow> error + SimWorld" where
  "simulate hex2bin lines w =
     (case clock w of
        [] \<Rightarrow> Inl StillRunning
      | start_time # cs \<Rightarrow>
          (case simulate_lines hex2bin start_time lines (w\<lparr>clock := cs, last_time := start_time\<rparr>) of
             Inl e \<Rightarrow> Inl e
           | Inr w' \<Rightarrow> Inr (w'\<lparr>events := events w' @ [Stopped]\<rparr>)))"

section \<open>Multical603 driver (meter\_multical603.cc)\<close>

text \<open>
  The enumerations and the record type of the DIF/VIF parser are declared outside the
  sources at hand; they are written down as far as the driver and the specification
  name them.
\<close>

datatype MeasurementType = Instantaneous | Maximum | Minimum | AtError | Unknown

datatype ValueInformation =
  EnergyWh | Volume | VolumeFlow | FlowTemperature | ReturnTemperature | Date

record DVEntry =
  measurement_type :: MeasurementType
  value_information :: int
  storagenr :: int
  tariff :: int
  subunit :: int
  dv_value :: string

type_synonym Values = "string \<rightharpoonup> (int \<times> DVEntry)"

text \<open>
  The parser functions the driver calls are defined outside the sources at hand and are
  parameters of the model.  \<open>findKey\<close> yields the key it stores through its pointer when
  it returns true.  Each \<open>extract\<close> function gets a pointer to a member of the meter:
  it is a function of the member's old value and yields its return code and the
  member's new value.  \<open>extractDate\<close> stands for \<^verbatim>\<open>extractDVdate\<close> followed by
  \<^verbatim>\<open>strdatetime\<close>.
\<close>

record DVParser =
  findKey :: "MeasurementType \<Rightarrow> ValueInformation \<Rightarrow> int \<Rightarrow> int \<Rightarrow> Values \<Rightarrow> string option"
  extractDVuint8 :: "Values \<Rightarrow> string \<Rightarrow> uchar \<Rightarrow> bool \<times> uchar"
  extractDVuint32 :: "Values \<Rightarrow> string \<Rightarrow> 32 word \<Rightarrow> bool \<times> 32 word"
  extractDVdouble :: "Values \<Rightarrow> string \<Rightarrow> real \<Rightarrow> bool \<times> real"
  extractDate :: "Values \<Rightarrow> string \<Rightarrow> string"

text \<open>
  The members of \<^verbatim>\<open>MeterMultical603\<close> with their initialisers (\<open>total_energy_kwh_mc\<close>
  is \<^verbatim>\<open>total_energy_kwh_\<close>, renamed apart from the Compact5 member).  The doubles
  are modelled as reals: the driver itself only stores what the parser hands back and
  never computes with them, and the initial value 127 is exact.
\<close>

record MeterMultical603 =
  info_codes :: uchar
  total_energy_kwh_mc :: real
  total_volume_m3 :: real
  volume_flow_m3h :: real
  t1_temperature_c :: real
  has_t1_temperature :: bool
  t2_temperature_c :: real
  has_t2_temperature :: bool
  target_date :: string
  energy_forward_kwh :: "32 word"
  energy_returned_kwh :: "32 word"

definition MeterMultical603_init :: MeterMultical603 where
  "MeterMultical603_init =
     \<lparr>info_codes = 0, total_energy_kwh_mc = 0, total_volume_m3 = 0, volume_flow_m3h = 0,
      t1_temperature_c = 127, has_t1_temperature = False,
      t2_temperature_c = 127, has_t2_temperature = False,
      target_date = [], energy_forward_kwh = 0, energy_returned_kwh = 0\<rparr>"

definition hasT1Temperature :: "MeterMultical603 \<Rightarrow> bool" where
  "hasT1Temperature m = has_t1_temperature m"

definition hasT2Temperature :: "MeterMultical603 \<Rightarrow> bool" where
  "hasT2Temperature m = has_t2_temperature m"

text \<open>
  \<^verbatim>\<open>MeterMultical603::processContent\<close> on the record map \<^verbatim>\<open>t->values\<close>.  The calls of
  \<^verbatim>\<open>addMoreExplanation\<close> annotate the telegram and leave the meter alone.
\<close>

definition MeterMultical603_processContent ::
  "DVParser \<Rightarrow> Values \<Rightarrow> MeterMultical603 \<Rightarrow> MeterMultical603" where
  "MeterMultical603_processContent P vs m =
     (let m1 = m\<lparr>info_codes := snd (extractDVuint8 P vs ''04FF22'' (info_codes m))\<rparr>;
          m2 = m1\<lparr>energy_forward_kwh :=
                     snd (extractDVuint32 P vs ''04FF07'' (energy_forward_kwh m1))\<rparr>;
          m3 = m2\<lparr>energy_returned_kwh :=
                     snd (extractDVuint32 P vs ''04FF08'' (energy_returned_kwh m2))\<rparr>;
          m4 = (case findKey P Instantaneous EnergyWh 0 0 vs of
                  None \<Rightarrow> m3
                | Some key \<Rightarrow>
                    m3\<lparr>total_energy_kwh_mc :=
                          snd (extractDVdouble P vs key (total_energy_kwh_mc m3))\<rparr>);
          m5 = (case findKey P Instantaneous Volume 0 0 vs of
                  None \<Rightarrow> m4
                | Some key \<Rightarrow>
                    m4\<lparr>total_volume_m3 :=
                          snd (extractDVdouble P vs key (total_volume_m3 m4))\<rparr>);
          m6 = (case findKey P Unknown VolumeFlow 0 0 vs of
                  None \<Rightarrow> m5
                | Some key \<Rightarrow>
                    m5\<lparr>volume_flow_m3h :=
                          snd (extractDVdouble P vs key (volume_flow_m3h m5))\<rparr>);
          m7 = (case findKey P Instantaneous FlowTemperature 0 0 vs of
                  None \<Rightarrow> m6
                | Some key \<Rightarrow>
                    (let (ok, v) = extractDVdouble P vs key (t1_temperature_c m6)
                     in m6\<lparr>t1_temperature_c := v, has_t1_temperature := ok\<rparr>));
          m8 = (case findKey P Instantaneous ReturnTemperature 0 0 vs of
                  None \<Rightarrow> m7
                | Some key \<Rightarrow>
                    (let (ok, v) = extractDVdouble P vs key (t2_temperature_c m7)
                     in m7\<lparr>t2_temperature_c := v, has_t2_temperature := ok\<rparr>))
      in (case findKey P Unknown Date 0 0 vs of
            None \<Rightarrow> m8
          | Some key \<Rightarrow> m8\<lparr>target_date := extractDate P vs key\<rparr>))"

section \<open>Example inputs\<close>

text \<open>
  Concrete stand-ins for the two parameters, used to run the models on explicit inputs.
  \<open>example_hex2bin\<close> knows the hex strings "AA" and "BB"; \<open>example_tty n\<close> is an
  opened TTY source with descriptor \<open>n\<close> and both callbacks installed;
  \<open>example_stdin\<close> is a file source opened on "stdin" (descriptor 0) with a listener.
  \<open>example_checker\<close> knows the single-character frame \<open>0xE5\<close> and a five-byte frame
  that starts with \<open>0x10\<close> and carries two payload bytes; any other first byte is an
  error.  \<open>example_parser\<close> finds the flow temperature under the key "0259" and reads
  53.28 from it.
\<close>

definition example_checker :: checker where
  "example_checker b = (case b of
       [] \<Rightarrow> \<lparr>status = PartialFrame, frame_length = 0, payload_len = 0, payload_offset = 0\<rparr>
     | x # xs \<Rightarrow>
         if x = 0xE5
         then \<lparr>status = FullFrame, frame_length = 1, payload_len = 0, payload_offset = 0\<rparr>
         else if x = 0x10
         then (if length b < 5
               then \<lparr>status = PartialFrame, frame_length = 0, payload_len = 0, payload_offset = 0\<rparr>
               else \<lparr>status = FullFrame, frame_length = 5, payload_len = 2, payload_offset = 1\<rparr>)
         else \<lparr>status = ErrorInFrame, frame_length = 0, payload_len = 0, payload_offset = 0\<rparr>)"

definition example_parser :: DVParser where
  "example_parser =
     \<lparr>findKey = (\<lambda>mt vi sn tf vs.
         if vi = FlowTemperature \<and> vs ''0259'' \<noteq> None then Some ''0259'' else None),
      extractDVuint8 = (\<lambda>vs k old. (False, old)),
      extractDVuint32 = (\<lambda>vs k old. (False, old)),
      extractDVdouble = (\<lambda>vs k old. (True, 53.28)),
      extractDate = (\<lambda>vs k. [])\<rparr>"

definition example_hex2bin :: "string \<Rightarrow> uchar list option" where
  "example_hex2bin h =
     (if h = ''AA'' then Some [0xAA] else if h = ''BB'' then Some [0xBB] else None)"

definition example_tty :: "int \<Rightarrow> SerialDevice" where
  "example_tty n = (new_device KindTTY)\<lparr>m_fd := n, m_on_data := True, m_on_disappear := True\<rparr>"


definition example_values :: Values where
  "example_values =
     [''0259'' \<mapsto> (0x36, \<lparr>measurement_type = Instantaneous, value_information = 0x59,
                              storagenr = 0, tariff = 0, subunit = 0, dv_value = ''D014''\<rparr>)]"

section \<open>Theorems\<close>

subsection \<open>Compact5\<close>

text \<open>
  C1.  For every telegram whose extracted payload has at least nine bytes,
  \<^verbatim>\<open>processContent\<close> of the Compact5 driver returns, and afterwards the
  previous-period energy is \<open>256 * content[4] + content[3]\<close>, the current-period energy
  is \<open>256 * content[8] + content[7]\<close>, and the total is their sum.  In particular the
  bytes \<open>0x64, 0x00\<close> at offsets 3, 4 and \<open>0xC8, 0x00\<close> at offsets 7, 8 give
  previous = 100, current = 200, total = 300.
\<close>

theorem compact5_processContent_energy:
  assumes "9 \<le> length (payload t)"
  shows "\<exists>t' m'. MeterCompact5_processContent t m = Some (t', m')
           \<and> prev_energy_kwh m' = 256 * real (unat (payload t ! 4)) + real (unat (payload t ! 3))
           \<and> curr_energy_kwh m' = 256 * real (unat (payload t ! 8)) + real (unat (payload t ! 7))
           \<and> total_energy_kwh m' = prev_energy_kwh m' + curr_energy_kwh m'
           \<and> (payload t ! 3 = 0x64 \<and> payload t ! 4 = 0x00
                \<and> payload t ! 7 = 0xC8 \<and> payload t ! 8 = 0x00
              \<longrightarrow> prev_energy_kwh m' = 100 \<and> curr_energy_kwh m' = 200
                  \<and> total_energy_kwh m' = 300)"
  using assms by (simp add: MeterCompact5_processContent_def Let_def)

theorem compact5_processContent_energy_witness:
  "9 \<le> length [0x00, 0x00, 0x00, 0x64, 0x00, 0x00, 0x00, 0xC8, 0x00, 0x17 :: uchar]
   \<and> map_option (\<lambda>(t', m'). (prev_energy_kwh m', curr_energy_kwh m', total_energy_kwh m'))
     (MeterCompact5_processContent
        \<lparr>parsed = [], explanations = [],
         payload = [0x00, 0x00, 0x00, 0x64, 0x00, 0x00, 0x00, 0xC8, 0x00, 0x17]\<rparr>
        MeterCompact5_init)
   = Some (100, 200, 300)"
  using compact5_processContent_energy
    [of "\<lparr>parsed = [], explanations = [],
          payload = [0x00, 0x00, 0x00, 0x64, 0x00, 0x00, 0x00, 0xC8, 0x00, 0x17]\<rparr>"
        MeterCompact5_init]
  by auto

subsection \<open>Timers\<close>

lemma collect_timers_eq:
  "collect_timers cur ts acc =
     (map (\<lambda>t. if isTime t cur then t\<lparr>last_call := cur\<rparr> else t) ts,
      acc @ map (\<lambda>t. t\<lparr>last_call := cur\<rparr>) (filter (\<lambda>t. isTime t cur) ts))"
  by (induction ts arbitrary: acc) (simp_all add: Let_def)

lemma due_timers_by_position:
  "map (nth ts) (filter (\<lambda>k. isTime (ts ! k) cur) [0..<length ts])
     = filter (\<lambda>t. isTime t cur) ts"
proof -
  have "filter (\<lambda>t. isTime t cur) (map (nth ts) [0..<length ts])
          = map (nth ts) (filter ((\<lambda>t. isTime t cur) \<circ> nth ts) [0..<length ts])"
    by (rule filter_map)
  then show ?thesis by (simp add: map_nth comp_def)
qed

text \<open>
  C4.  On a tick, that is one run of \<^verbatim>\<open>executeTimerCallbacks\<close> at time \<open>cur\<close>: a
  timer with \<open>last_call + seconds \<le> cur\<close> has \<open>last_call = cur\<close> afterwards, a timer
  whose deadline has not been reached is left as it was, and the callbacks run are
  exactly those of the timers that were due, one call per due timer, in the order of
  the timer list.
\<close>

theorem executeTimerCallbacks_due:
  "executeTimerCallbacks cur timers = (timers', called) \<Longrightarrow>
     length timers' = length timers
     \<and> (\<forall>i < length timers.
           (last_call (timers ! i) + seconds (timers ! i) \<le> cur
              \<longrightarrow> timers' ! i = (timers ! i)\<lparr>last_call := cur\<rparr>)
         \<and> (\<not> last_call (timers ! i) + seconds (timers ! i) \<le> cur
              \<longrightarrow> timers' ! i = timers ! i))
     \<and> called = map (\<lambda>i. timers' ! i)
                  (filter (\<lambda>i. last_call (timers ! i) + seconds (timers ! i) \<le> cur)
                     [0..<length timers])"
proof -
  assume a: "executeTimerCallbacks cur timers = (timers', called)"
  let ?upd = "\<lambda>t. if isTime t cur then t\<lparr>last_call := cur\<rparr> else t"
  from a have t': "timers' = map ?upd timers"
    and c: "called = map (\<lambda>t. t\<lparr>last_call := cur\<rparr>) (filter (\<lambda>t. isTime t cur) timers)"
    by (simp_all add: executeTimerCallbacks_def collect_timers_eq)
  have len: "length timers' = length timers" using t' by simp
  have pt: "\<forall>i < length timers.
           (last_call (timers ! i) + seconds (timers ! i) \<le> cur
              \<longrightarrow> timers' ! i = (timers ! i)\<lparr>last_call := cur\<rparr>)
         \<and> (\<not> last_call (timers ! i) + seconds (timers ! i) \<le> cur
              \<longrightarrow> timers' ! i = timers ! i)"
    using t' by (simp add: isTime_def)
  have "called = map (\<lambda>t. t\<lparr>last_call := cur\<rparr>)
                   (map (\<lambda>i. timers ! i) (filter (\<lambda>i. isTime (timers ! i) cur) [0..<length timers]))"
    using c due_timers_by_position [of timers cur] by simp
  also have "\<dots> = map (\<lambda>i. timers' ! i) (filter (\<lambda>i. isTime (timers ! i) cur) [0..<length timers])"
    using t' by (simp add: comp_def)
  finally have "called = map (\<lambda>i. timers' ! i)
                  (filter (\<lambda>i. last_call (timers ! i) + seconds (timers ! i) \<le> cur)
                     [0..<length timers])"
    by (simp add: isTime_def)
  with len pt show ?thesis by blast
qed

theorem executeTimerCallbacks_due_witness:
  "executeTimerCallbacks 110
     [\<lparr>timer_id = 0, seconds = 10, last_call = 100, timer_name = ''a''\<rparr>,
      \<lparr>timer_id = 1, seconds = 60, last_call = 100, timer_name = ''b''\<rparr>]
   = ([\<lparr>timer_id = 0, seconds = 10, last_call = 110, timer_name = ''a''\<rparr>,
       \<lparr>timer_id = 1, seconds = 60, last_call = 100, timer_name = ''b''\<rparr>],
      [\<lparr>timer_id = 0, seconds = 10, last_call = 110, timer_name = ''a''\<rparr>])
   \<and> [\<lparr>timer_id = 0, seconds = 10, last_call = 110, timer_name = ''a''\<rparr>]
       = map (\<lambda>i. [\<lparr>timer_id = 0, seconds = 10, last_call = 110, timer_name = ''a''\<rparr>,
                    \<lparr>timer_id = 1, seconds = 60, last_call = 100, timer_name = ''b''\<rparr>] ! i)
           (filter (\<lambda>i. last_call ([\<lparr>timer_id = 0, seconds = 10, last_call = 100, timer_name = ''a''\<rparr>,
                                     \<lparr>timer_id = 1, seconds = 60, last_call = 100, timer_name = ''b''\<rparr>] ! i)
                         + seconds ([\<lparr>timer_id = 0, seconds = 10, last_call = 100, timer_name = ''a''\<rparr>,
                                     \<lparr>timer_id = 1, seconds = 60, last_call = 100, timer_name = ''b''\<rparr>] ! i)
                         \<le> 110)
              [0..<length [\<lparr>timer_id = 0, seconds = 10, last_call = 100, timer_name = ''a''\<rparr>,
                           \<lparr>timer_id = 1, seconds = 60, last_call = 100, timer_name = ''b''\<rparr>]])"
proof -
  have run: "executeTimerCallbacks 110
     [\<lparr>timer_id = 0, seconds = 10, last_call = 100, timer_name = ''a''\<rparr>,
      \<lparr>timer_id = 1, seconds = 60, last_call = 100, timer_name = ''b''\<rparr>]
   = ([\<lparr>timer_id = 0, seconds = 10, last_call = 110, timer_name = ''a''\<rparr>,
       \<lparr>timer_id = 1, seconds = 60, last_call = 100, timer_name = ''b''\<rparr>],
      [\<lparr>timer_id = 0, seconds = 10, last_call = 110, timer_name = ''a''\<rparr>])"
    by (simp add: executeTimerCallbacks_def isTime_def Let_def)
  from executeTimerCallbacks_due [OF run] run show ?thesis by blast
qed

subsection \<open>Sending\<close>

lemma copy_and_sum_eq: "copy_and_sum cs msg crc = (msg @ cs, crc + sum_list cs)"
  by (induction cs arbitrary: msg crc) (simp_all add: add.assoc)

lemma unat_sum_list_uchar:
  "unat (sum_list (cs :: uchar list)) = sum_list (map unat cs) mod 256"
proof (induction cs)
  case Nil
  show ?case by simp
next
  case (Cons c cs)
  have "unat (c + sum_list cs) = (unat c + unat (sum_list cs)) mod 256"
    by (simp add: unat_word_ariths)
  also have "\<dots> = (unat c + sum_list (map unat cs) mod 256) mod 256"
    using Cons.IH by simp
  also have "\<dots> = (unat c + sum_list (map unat cs)) mod 256"
    by (rule mod_add_right_eq)
  finally show ?case by simp
qed

lemma send_loop_total:
  "written < length data \<Longrightarrow> out = take written data \<Longrightarrow>
   \<forall>r \<in> set os. \<forall>e. r = WriteFails e \<longrightarrow> e = EINTR \<Longrightarrow>
   length data - written \<le> sum_list (map room os) \<Longrightarrow>
   send_loop os data written out = Inr (True, data)"
proof (induction os arbitrary: written out)
  case Nil
  then show ?case by simp
next
  case (Cons r os)
  show ?case
  proof (cases r)
    case (Accepts k)
    let ?nw = "min k (length data - written)"
    have out': "out @ take ?nw (drop written data) = take (written + ?nw) data"
      using Cons.prems(2) by (simp add: take_add)
    show ?thesis
    proof (cases "written + ?nw = length data")
      case True
      with Accepts out' show ?thesis by (simp add: Let_def)
    next
      case False
      then have lt: "written + ?nw < length data" using Cons.prems(1) by auto
      then have k: "?nw = k" by auto
      have "send_loop os data (written + ?nw) (out @ take ?nw (drop written data)) = Inr (True, data)"
      proof (rule Cons.IH [OF lt out'])
        show "\<forall>r\<in>set os. \<forall>e. r = WriteFails e \<longrightarrow> e = EINTR" using Cons.prems(3) by simp
        show "length data - (written + ?nw) \<le> sum_list (map room os)"
          using Cons.prems(4) Accepts k by simp
      qed
      with Accepts False show ?thesis by (simp add: Let_def)
    qed
  next
    case (WriteFails e)
    with Cons.prems(3) have e: "e = EINTR" by simp
    have "send_loop os data written out = Inr (True, data)"
      using Cons.IH [OF Cons.prems(1) Cons.prems(2)] Cons.prems(3,4) WriteFails by simp
    with WriteFails e show ?thesis by simp
  qed
qed

lemma send_loop_result:
  "written \<le> length data \<Longrightarrow> out = take written data \<Longrightarrow>
   send_loop os data written out = Inr (rc, out') \<Longrightarrow>
   (rc \<longrightarrow> out' = data) \<and> (\<exists>n \<le> length data. out' = take n data)"
proof (induction os arbitrary: written out)
  case Nil
  then show ?case by simp
next
  case (Cons r os)
  show ?case
  proof (cases r)
    case (Accepts k)
    let ?nw = "min k (length data - written)"
    have out2: "out @ take ?nw (drop written data) = take (written + ?nw) data"
      using Cons.prems(2) by (simp add: take_add)
    have le: "written + ?nw \<le> length data" using Cons.prems(1) by auto
    show ?thesis
    proof (cases "written + ?nw = length data")
      case True
      with Accepts out2 Cons.prems(3) show ?thesis by (auto simp: Let_def)
    next
      case False
      with Accepts Cons.prems(3)
      have "send_loop os data (written + ?nw) (out @ take ?nw (drop written data)) = Inr (rc, out')"
        by (simp add: Let_def)
      from Cons.IH [OF le out2 this] show ?thesis .
    qed
  next
    case (WriteFails e)
    show ?thesis
    proof (cases "e = EINTR")
      case True
      with WriteFails Cons.prems(3) have "send_loop os data written out = Inr (rc, out')" by simp
      from Cons.IH [OF Cons.prems(1) Cons.prems(2) this] show ?thesis .
    next
      case False
      with WriteFails Cons.prems show ?thesis by auto
    qed
  qed
qed

text \<open>
  C5, as amended.  On a serial device that is not read-only: for every content of at
  most 250 bytes sent with \<^verbatim>\<open>LONG_FRAME\<close>, \<^verbatim>\<open>sendTelegram\<close> hands the serial device
  exactly the bytes \<open>0x68, L, L, 0x68\<close>, the content, \<open>CS\<close>, \<open>0x16\<close>, where \<open>L\<close> is the
  size of the content and \<open>CS\<close> is the sum of the content bytes modulo 256, and returns
  what the device's \<^verbatim>\<open>send\<close> returns (a TTY whose kernel takes the whole message
  gets exactly these bytes and the result is true); for every content of more than 250
  bytes it returns false and nothing is sent.
\<close>

theorem sendTelegram_long_frame:
  assumes "\<not> readonly d"
  shows "(length content \<le> 250 \<longrightarrow>
            sendTelegram d os LONG_FRAME content
              = send d os ([0x68, of_nat (length content), of_nat (length content), 0x68]
                           @ content @ [sum_list content, 0x16])
            \<and> unat (of_nat (length content) :: uchar) = length content
            \<and> unat (sum_list content) = sum_list (map unat content) mod 256
            \<and> (kind d = KindTTY \<longrightarrow>
                 sendTelegram d (Accepts (length content + 6) # os) LONG_FRAME content
                   = Inr (True, [0x68, of_nat (length content), of_nat (length content), 0x68]
                                @ content @ [sum_list content, 0x16])))
       \<and> (250 < length content \<longrightarrow> sendTelegram d os starts_with content = Inr (False, []))"
proof -
  let ?msg = "[0x68, of_nat (length content), of_nat (length content), 0x68]
                @ content @ [sum_list content, 0x16 :: uchar]"
  have long: "length content \<le> 250 \<Longrightarrow> sendTelegram d os' LONG_FRAME content = send d os' ?msg" for os'
    using assms by (simp add: sendTelegram_def copy_and_sum_eq split: sum.splits)
  have len: "length content \<le> 250 \<Longrightarrow> unat (of_nat (length content) :: uchar) = length content"
    by (simp add: unat_of_nat)
  have tty: "kind d = KindTTY \<Longrightarrow> send d (Accepts (length content + 6) # os) ?msg = Inr (True, ?msg)"
    by (simp add: send_def SerialDeviceTTY_send_def Let_def)
  have big: "250 < length content \<Longrightarrow> sendTelegram d os starts_with content = Inr (False, [])"
    using assms by (simp add: sendTelegram_def)
  show ?thesis
    using long len tty big unat_sum_list_uchar [of content] by simp
qed

theorem sendTelegram_long_frame_witness:
  "\<not> readonly ((new_device KindTTY)\<lparr>m_fd := 5\<rparr>)
   \<and> sendTelegram ((new_device KindTTY)\<lparr>m_fd := 5\<rparr>) [Accepts 8] LONG_FRAME [0x5B, 0x07]
       = Inr (True, [0x68, 0x02, 0x02, 0x68, 0x5B, 0x07, 0x62, 0x16])
   \<and> sendTelegram ((new_device KindTTY)\<lparr>m_fd := 5\<rparr>) [Accepts 8] LONG_FRAME (replicate 251 0)
       = Inr (False, [])"
proof -
  have ro: "\<not> readonly ((new_device KindTTY)\<lparr>m_fd := 5\<rparr>)"
    by (simp add: readonly_def new_device_def)
  have k: "kind ((new_device KindTTY)\<lparr>m_fd := 5\<rparr>) = KindTTY"
    by (simp add: new_device_def)
  from sendTelegram_long_frame [OF ro, of "[0x5B, 0x07]" "[]"] k
  have a: "sendTelegram ((new_device KindTTY)\<lparr>m_fd := 5\<rparr>) [Accepts 8] LONG_FRAME [0x5B, 0x07]
             = Inr (True, [0x68, 0x02, 0x02, 0x68, 0x5B, 0x07, 0x62, 0x16])"
    by simp
  from sendTelegram_long_frame [OF ro, of "replicate 251 0" "[Accepts 8]" LONG_FRAME]
  have b: "sendTelegram ((new_device KindTTY)\<lparr>m_fd := 5\<rparr>) [Accepts 8] LONG_FRAME (replicate 251 0)
             = Inr (False, [])"
    by simp
  from ro a b show ?thesis by simp
qed

text \<open>
  C5 as stated fails on a read-only serial device (standard input opened as the M-Bus
  device): a content of 251 bytes is answered with true, not with false.
\<close>

theorem sendTelegram_readonly_counterexample:
  "250 < length (replicate 251 (0 :: uchar))
   \<and> sendTelegram ((new_device KindFile)\<lparr>m_fd := 0, m_is_stdin := True\<rparr>) []
       LONG_FRAME (replicate 251 0) = Inr (True, [])"
  by (simp add: sendTelegram_def readonly_def new_device_def)

text \<open>
  C6.  The \<^verbatim>\<open>send\<close> of a file source (a file or the standard-input pseudo-path) and
  of a simulator source returns true and writes nothing; \<^verbatim>\<open>sendTelegram\<close> returns true
  at once, writing nothing, when its serial device is read-only; the \<^verbatim>\<open>send\<close> of a TTY
  source tries again after every \<^verbatim>\<open>EINTR\<close> and, when the kernel fails in no other way
  and takes the bytes in the end, returns true with all bytes written, in order;
  whenever it returns true, the bytes written are exactly the data; and a write that
  fails with another error ends the call with false.
\<close>

theorem send_readonly_and_tty:
  "(kind d = KindFile \<or> kind d = KindSimulator \<longrightarrow> send d os data = Inr (True, []))
   \<and> (readonly d \<longrightarrow> sendTelegram d os starts_with content = Inr (True, []))
   \<and> (kind d = KindTTY \<longrightarrow> data \<noteq> [] \<longrightarrow>
        send d (WriteFails EINTR # os) data = send d os data)
   \<and> (kind d = KindTTY \<longrightarrow> data \<noteq> [] \<longrightarrow>
        (\<forall>r \<in> set os. \<forall>e. r = WriteFails e \<longrightarrow> e = EINTR) \<longrightarrow>
        length data \<le> sum_list (map room os) \<longrightarrow>
        send d os data = Inr (True, data))
   \<and> (kind d = KindTTY \<longrightarrow> send d os data = Inr (True, out) \<longrightarrow> out = data)
   \<and> (kind d = KindTTY \<longrightarrow> data \<noteq> [] \<longrightarrow> e \<noteq> EINTR \<longrightarrow>
        send d (WriteFails e # os) data = Inr (False, []))"
proof -
  have a: "kind d = KindFile \<or> kind d = KindSimulator \<longrightarrow> send d os data = Inr (True, [])"
    by (auto simp: send_def SerialDeviceFile_send_def SerialDeviceSimulator_send_def)
  have b: "readonly d \<longrightarrow> sendTelegram d os starts_with content = Inr (True, [])"
    by (simp add: sendTelegram_def)
  have c: "kind d = KindTTY \<longrightarrow> data \<noteq> [] \<longrightarrow>
        send d (WriteFails EINTR # os) data = send d os data"
    by (simp add: send_def SerialDeviceTTY_send_def)
  have d: "kind d = KindTTY \<longrightarrow> data \<noteq> [] \<longrightarrow>
        (\<forall>r \<in> set os. \<forall>e. r = WriteFails e \<longrightarrow> e = EINTR) \<longrightarrow>
        length data \<le> sum_list (map room os) \<longrightarrow>
        send d os data = Inr (True, data)"
    using send_loop_total [of 0 data "[]" os]
    by (simp add: send_def SerialDeviceTTY_send_def)
  have e: "kind d = KindTTY \<longrightarrow> send d os data = Inr (True, out) \<longrightarrow> out = data"
    using send_loop_result [of 0 data "[]" os True out]
    by (auto simp: send_def SerialDeviceTTY_send_def split: if_splits)
  have f: "kind d = KindTTY \<longrightarrow> data \<noteq> [] \<longrightarrow> e \<noteq> EINTR \<longrightarrow>
        send d (WriteFails e # os) data = Inr (False, [])"
    by (simp add: send_def SerialDeviceTTY_send_def)
  from a b c d e f show ?thesis by blast
qed

theorem send_readonly_and_tty_witness:
  "kind ((new_device KindFile)\<lparr>m_fd := 0, m_is_stdin := True\<rparr>) = KindFile
   \<and> readonly ((new_device KindFile)\<lparr>m_fd := 0, m_is_stdin := True\<rparr>)
   \<and> send ((new_device KindFile)\<lparr>m_fd := 0, m_is_stdin := True\<rparr>) [] [0x10, 0x5B] = Inr (True, [])
   \<and> sendTelegram ((new_device KindFile)\<lparr>m_fd := 0, m_is_stdin := True\<rparr>) []
        SHORT_FRAME [0x5B, 0x00] = Inr (True, [])
   \<and> kind ((new_device KindTTY)\<lparr>m_fd := 5\<rparr>) = KindTTY
   \<and> length [0x10, 0x5B, 0x00 :: uchar]
        \<le> sum_list (map room [WriteFails EINTR, Accepts 1, WriteFails EINTR, Accepts 0, Accepts 7])
   \<and> send ((new_device KindTTY)\<lparr>m_fd := 5\<rparr>)
        [WriteFails EINTR, Accepts 1, WriteFails EINTR, Accepts 0, Accepts 7] [0x10, 0x5B, 0x00]
       = Inr (True, [0x10, 0x5B, 0x00])
   \<and> send ((new_device KindTTY)\<lparr>m_fd := 5\<rparr>) [WriteFails EIO] [0x10, 0x5B, 0x00]
       = Inr (False, [])"
proof -
  have f: "kind ((new_device KindFile)\<lparr>m_fd := 0, m_is_stdin := True\<rparr>) = KindFile"
    and r: "readonly ((new_device KindFile)\<lparr>m_fd := 0, m_is_stdin := True\<rparr>)"
    and t: "kind ((new_device KindTTY)\<lparr>m_fd := 5\<rparr>) = KindTTY"
    by (simp_all add: new_device_def readonly_def)
  have e: "\<forall>r \<in> set [WriteFails EINTR, Accepts 1, WriteFails EINTR, Accepts 0, Accepts 7].
         \<forall>e. r = WriteFails e \<longrightarrow> e = EINTR"
    by simp
  have l: "length [0x10, 0x5B, 0x00 :: uchar]
        \<le> sum_list (map room [WriteFails EINTR, Accepts 1, WriteFails EINTR, Accepts 0, Accepts 7])"
    by simp
  from send_readonly_and_tty
         [of "(new_device KindFile)\<lparr>m_fd := 0, m_is_stdin := True\<rparr>" "[]" "[0x10, 0x5B]"
             SHORT_FRAME "[0x5B, 0x00]"] f r
  have 1: "send ((new_device KindFile)\<lparr>m_fd := 0, m_is_stdin := True\<rparr>) [] [0x10, 0x5B] = Inr (True, [])"
    and 2: "sendTelegram ((new_device KindFile)\<lparr>m_fd := 0, m_is_stdin := True\<rparr>) []
        SHORT_FRAME [0x5B, 0x00] = Inr (True, [])"
    by simp_all
  from send_readonly_and_tty
         [of "(new_device KindTTY)\<lparr>m_fd := 5\<rparr>"
             "[WriteFails EINTR, Accepts 1, WriteFails EINTR, Accepts 0, Accepts 7]"
             "[0x10, 0x5B, 0x00]"] t e l
  have 3: "send ((new_device KindTTY)\<lparr>m_fd := 5\<rparr>)
        [WriteFails EINTR, Accepts 1, WriteFails EINTR, Accepts 0, Accepts 7] [0x10, 0x5B, 0x00]
       = Inr (True, [0x10, 0x5B, 0x00])"
    by simp
  from send_readonly_and_tty
         [where d = "(new_device KindTTY)\<lparr>m_fd := 5\<rparr>" and os = "[]"
            and data = "[0x10, 0x5B, 0x00]" and e = EIO] t
  have 4: "send ((new_device KindTTY)\<lparr>m_fd := 5\<rparr>) [WriteFails EIO] [0x10, 0x5B, 0x00]
       = Inr (False, [])"
    by simp
  from f r t l 1 2 3 4 show ?thesis by blast
qed

subsection \<open>processSerialData\<close>

lemma frame_loop_terminates:
  assumes ok: "\<And>b. status (check b) = FullFrame \<Longrightarrow>
                 1 \<le> frame_length (check b) \<and> frame_length (check b) \<le> length b
                 \<and> (0 < payload_len (check b) \<longrightarrow>
                      0 \<le> payload_offset (check b)
                      \<and> payload_offset (check b) + payload_len (check b) \<le> int (length b))"
  shows "length (read_buffer s) < n \<Longrightarrow>
         \<exists>s'. frame_loop check n s = Inr s' \<and> suffix (read_buffer s') (read_buffer s)"
proof (induction n arbitrary: s)
  case 0
  then show ?case by simp
next
  case (Suc n)
  let ?b = "read_buffer s"
  let ?c = "check ?b"
  show ?case
  proof (cases "status ?c")
    case PartialFrame
    then show ?thesis by (simp add: Let_def)
  next
    case ErrorInFrame
    then show ?thesis by (simp add: Let_def)
  next
    case FullFrame
    from ok [OF FullFrame] have fl: "1 \<le> frame_length ?c" "frame_length ?c \<le> length ?b"
      and pl: "0 < payload_len ?c \<longrightarrow> 0 \<le> payload_offset ?c
                 \<and> payload_offset ?c + payload_len ?c \<le> int (length ?b)"
      by simp_all
    have "\<exists>p. frame_payload ?c ?b = Inr p"
    proof (cases "0 < payload_len ?c")
      case True
      with pl show ?thesis by (simp add: frame_payload_def)
    next
      case False
      then show ?thesis by (simp add: frame_payload_def)
    qed
    then obtain p where p: "frame_payload ?c ?b = Inr p" by blast
    let ?s1 = "s\<lparr>read_buffer := drop (frame_length ?c) ?b, handled := handled s @ [p]\<rparr>"
    have "length (read_buffer ?s1) < n" using fl Suc.prems by simp
    from Suc.IH [OF this] obtain s' where
      s': "frame_loop check n ?s1 = Inr s'" "suffix (read_buffer s') (read_buffer ?s1)"
      by blast
    have "suffix (read_buffer ?s1) ?b" by (simp add: suffix_drop)
    with s'(2) have "suffix (read_buffer s') ?b" using suffix_order.trans by blast
    moreover have "frame_loop check (Suc n) s = Inr s'"
      using FullFrame p fl s'(1) by (simp add: Let_def)
    ultimately show ?thesis by blast
  qed
qed


lemma frame_loop_numeral:
  "frame_loop check (numeral k) s =
     (let c = check (read_buffer s) in
      case status c of
        PartialFrame \<Rightarrow> Inr s
      | ErrorInFrame \<Rightarrow>
          Inr (s\<lparr>protocol_errors := protocol_errors s @ [read_buffer s], read_buffer := []\<rparr>)
      | FullFrame \<Rightarrow>
          (case frame_payload c (read_buffer s) of
             Inl e \<Rightarrow> Inl e
           | Inr p \<Rightarrow>
               if length (read_buffer s) < frame_length c then Inl OutOfRange
               else frame_loop check (pred_numeral k)
                      (s\<lparr>read_buffer := drop (frame_length c) (read_buffer s),
                         handled := handled s @ [p]\<rparr>)))"
  by (simp only: numeral_eq_Suc frame_loop.simps)

text \<open>
  C2.  \<^verbatim>\<open>processSerialData\<close> appends the received bytes to the read buffer and then
  acts on the status of the frame check.  On \<^verbatim>\<open>PartialFrame\<close> it returns with the
  accumulated buffer intact.  On \<^verbatim>\<open>ErrorInFrame\<close> it returns with the buffer empty
  and the discarded bytes reported as a protocol error.  On \<^verbatim>\<open>FullFrame\<close> (the frame
  lying inside the buffer) it erases exactly \<^verbatim>\<open>frame_length\<close> bytes from the front,
  hands the payload (the length byte and \<^verbatim>\<open>payload_len\<close> bytes from
  \<^verbatim>\<open>payload_offset\<close> on, or nothing when \<^verbatim>\<open>payload_len\<close> is not positive) to
  \<^verbatim>\<open>handleTelegram\<close>, and goes on with the bytes beyond the frame, which stay in the
  buffer.  With a frame check whose full frames are not empty and lie inside the buffer,
  the call returns within one round more than the buffer has bytes, and what is left in
  the buffer is a suffix of the accumulated bytes.
\<close>

theorem processSerialData_by_status:
  "(status (check (read_buffer s @ data)) = PartialFrame \<longrightarrow>
      processSerialData check (Suc n) data s = Inr (s\<lparr>read_buffer := read_buffer s @ data\<rparr>))
   \<and> (status (check (read_buffer s @ data)) = ErrorInFrame \<longrightarrow>
      processSerialData check (Suc n) data s
        = Inr (s\<lparr>read_buffer := [],
                 protocol_errors := protocol_errors s @ [read_buffer s @ data]\<rparr>))
   \<and> (status (check (read_buffer s @ data)) = FullFrame
        \<and> frame_length (check (read_buffer s @ data)) \<le> length (read_buffer s @ data)
        \<and> frame_payload (check (read_buffer s @ data)) (read_buffer s @ data) = Inr p \<longrightarrow>
      processSerialData check (Suc n) data s
        = frame_loop check n
            (s\<lparr>read_buffer := drop (frame_length (check (read_buffer s @ data))) (read_buffer s @ data),
               handled := handled s @ [p]\<rparr>)
      \<and> length (drop (frame_length (check (read_buffer s @ data))) (read_buffer s @ data))
          = length (read_buffer s @ data) - frame_length (check (read_buffer s @ data))
      \<and> take (frame_length (check (read_buffer s @ data))) (read_buffer s @ data)
          @ drop (frame_length (check (read_buffer s @ data))) (read_buffer s @ data)
          = read_buffer s @ data
      \<and> p = (if 0 < payload_len (check (read_buffer s @ data))
             then of_int (payload_len (check (read_buffer s @ data)))
                  # take (nat (payload_len (check (read_buffer s @ data))))
                      (drop (nat (payload_offset (check (read_buffer s @ data))))
                         (read_buffer s @ data))
             else []))
   \<and> ((\<forall>b. status (check b) = FullFrame \<longrightarrow>
             1 \<le> frame_length (check b) \<and> frame_length (check b) \<le> length b
             \<and> (0 < payload_len (check b) \<longrightarrow>
                  0 \<le> payload_offset (check b)
                  \<and> payload_offset (check b) + payload_len (check b) \<le> int (length b))) \<longrightarrow>
       (\<exists>s'. processSerialData check (Suc (length (read_buffer s @ data))) data s = Inr s'
             \<and> suffix (read_buffer s') (read_buffer s @ data)))"
proof -
  let ?buf = "read_buffer s @ data"
  let ?c = "check ?buf"
  have partial: "status ?c = PartialFrame \<longrightarrow>
      processSerialData check (Suc n) data s = Inr (s\<lparr>read_buffer := ?buf\<rparr>)"
    by (simp add: processSerialData_def Let_def)
  have err: "status ?c = ErrorInFrame \<longrightarrow>
      processSerialData check (Suc n) data s
        = Inr (s\<lparr>read_buffer := [], protocol_errors := protocol_errors s @ [?buf]\<rparr>)"
    by (simp add: processSerialData_def Let_def)
  have full: "status ?c = FullFrame \<and> frame_length ?c \<le> length ?buf
        \<and> frame_payload ?c ?buf = Inr p \<longrightarrow>
      processSerialData check (Suc n) data s
        = frame_loop check n (s\<lparr>read_buffer := drop (frame_length ?c) ?buf, handled := handled s @ [p]\<rparr>)"
    by (simp add: processSerialData_def Let_def)
  have pay: "frame_payload ?c ?buf = Inr p \<longrightarrow>
      p = (if 0 < payload_len ?c
           then of_int (payload_len ?c) # take (nat (payload_len ?c)) (drop (nat (payload_offset ?c)) ?buf)
           else [])"
    by (auto simp: frame_payload_def split: if_splits)
  have fin: "(\<forall>b. status (check b) = FullFrame \<longrightarrow>
             1 \<le> frame_length (check b) \<and> frame_length (check b) \<le> length b
             \<and> (0 < payload_len (check b) \<longrightarrow>
                  0 \<le> payload_offset (check b)
                  \<and> payload_offset (check b) + payload_len (check b) \<le> int (length b))) \<longrightarrow>
       (\<exists>s'. processSerialData check (Suc (length ?buf)) data s = Inr s'
             \<and> suffix (read_buffer s') ?buf)"
  proof
    assume a: "\<forall>b. status (check b) = FullFrame \<longrightarrow>
             1 \<le> frame_length (check b) \<and> frame_length (check b) \<le> length b
             \<and> (0 < payload_len (check b) \<longrightarrow>
                  0 \<le> payload_offset (check b)
                  \<and> payload_offset (check b) + payload_len (check b) \<le> int (length b))"
    have "\<exists>s'. frame_loop check (Suc (length ?buf)) (s\<lparr>read_buffer := ?buf\<rparr>) = Inr s'
            \<and> suffix (read_buffer s') (read_buffer (s\<lparr>read_buffer := ?buf\<rparr>))"
      by (rule frame_loop_terminates) (use a in simp_all)
    then show "\<exists>s'. processSerialData check (Suc (length ?buf)) data s = Inr s'
             \<and> suffix (read_buffer s') ?buf"
      by (simp add: processSerialData_def)
  qed
  from partial err full pay fin show ?thesis
    by (simp only: length_drop append_take_drop_id) blast
qed

lemma example_checker_full:
  "status (example_checker b) = FullFrame \<longrightarrow>
     1 \<le> frame_length (example_checker b) \<and> frame_length (example_checker b) \<le> length b
     \<and> (0 < payload_len (example_checker b) \<longrightarrow>
          0 \<le> payload_offset (example_checker b)
          \<and> payload_offset (example_checker b) + payload_len (example_checker b) \<le> int (length b))"
  by (cases b) (simp_all add: example_checker_def)

theorem processSerialData_by_status_witness:
  "processSerialData example_checker (Suc 0) [0x5B]
       \<lparr>read_buffer = [0x10], handled = [], protocol_errors = []\<rparr>
     = Inr \<lparr>read_buffer = [0x10, 0x5B], handled = [], protocol_errors = []\<rparr>
   \<and> processSerialData example_checker (Suc 0) [0x00]
       \<lparr>read_buffer = [0x33], handled = [], protocol_errors = []\<rparr>
     = Inr \<lparr>read_buffer = [], handled = [], protocol_errors = [[0x33, 0x00]]\<rparr>
   \<and> processSerialData example_checker (Suc 2) [0x5B, 0x00, 0x5B, 0x16, 0xE5, 0x10]
       \<lparr>read_buffer = [0x10], handled = [], protocol_errors = []\<rparr>
     = frame_loop example_checker 2
         \<lparr>read_buffer = [0xE5, 0x10], handled = [[0x02, 0x5B, 0x00]], protocol_errors = []\<rparr>
   \<and> (\<exists>s'. processSerialData example_checker
               (Suc (length [0x10, 0x5B, 0x00, 0x5B, 0x16, 0xE5, 0x10 :: uchar]))
               [0x5B, 0x00, 0x5B, 0x16, 0xE5, 0x10]
               \<lparr>read_buffer = [0x10], handled = [], protocol_errors = []\<rparr> = Inr s'
            \<and> suffix (read_buffer s') [0x10, 0x5B, 0x00, 0x5B, 0x16, 0xE5, 0x10])
   \<and> processSerialData example_checker 8 [0x5B, 0x00, 0x5B, 0x16, 0xE5, 0x10]
       \<lparr>read_buffer = [0x10], handled = [], protocol_errors = []\<rparr>
     = Inr \<lparr>read_buffer = [0x10], handled = [[0x02, 0x5B, 0x00], []], protocol_errors = []\<rparr>"
proof -
  let ?s0 = "\<lparr>read_buffer = [0x10], handled = [], protocol_errors = []\<rparr> :: MBusRawTTY"
  let ?s1 = "\<lparr>read_buffer = [0x33], handled = [], protocol_errors = []\<rparr> :: MBusRawTTY"
  let ?d = "[0x5B, 0x00, 0x5B, 0x16, 0xE5, 0x10] :: uchar list"
  have p: "status (example_checker (read_buffer ?s0 @ [0x5B])) = PartialFrame"
    by (simp add: example_checker_def)
  have e: "status (example_checker (read_buffer ?s1 @ [0x00])) = ErrorInFrame"
    by (simp add: example_checker_def)
  have f: "status (example_checker (read_buffer ?s0 @ ?d)) = FullFrame
           \<and> frame_length (example_checker (read_buffer ?s0 @ ?d)) \<le> length (read_buffer ?s0 @ ?d)
           \<and> frame_payload (example_checker (read_buffer ?s0 @ ?d)) (read_buffer ?s0 @ ?d)
               = Inr [0x02, 0x5B, 0x00]"
    by (simp add: example_checker_def frame_payload_def)
  have fl: "frame_length (example_checker (read_buffer ?s0 @ ?d)) = 5"
    by (simp add: example_checker_def)
  from processSerialData_by_status [where check = example_checker and s = ?s0 and data = "[0x5B]" and n = 0] p
  have 1: "processSerialData example_checker (Suc 0) [0x5B] ?s0
             = Inr \<lparr>read_buffer = [0x10, 0x5B], handled = [], protocol_errors = []\<rparr>"
    by simp
  from processSerialData_by_status [where check = example_checker and s = ?s1 and data = "[0x00]" and n = 0] e
  have 2: "processSerialData example_checker (Suc 0) [0x00] ?s1
             = Inr \<lparr>read_buffer = [], handled = [], protocol_errors = [[0x33, 0x00]]\<rparr>"
    by simp
  from processSerialData_by_status [where check = example_checker and s = ?s0 and data = ?d and p = "[0x02, 0x5B, 0x00]" and n = 2] f fl
  have 3: "processSerialData example_checker (Suc 2) ?d ?s0
             = frame_loop example_checker 2
                 \<lparr>read_buffer = [0xE5, 0x10], handled = [[0x02, 0x5B, 0x00]], protocol_errors = []\<rparr>"
    by simp
  from processSerialData_by_status
         [where check = example_checker and s = ?s0 and data = ?d and p = "[]" and n = 0]
  have "(\<forall>b. status (example_checker b) = FullFrame \<longrightarrow>
             1 \<le> frame_length (example_checker b) \<and> frame_length (example_checker b) \<le> length b
             \<and> (0 < payload_len (example_checker b) \<longrightarrow>
                  0 \<le> payload_offset (example_checker b)
                  \<and> payload_offset (example_checker b) + payload_len (example_checker b)
                      \<le> int (length b))) \<longrightarrow>
       (\<exists>s'. processSerialData example_checker (Suc (length (read_buffer ?s0 @ ?d))) ?d ?s0 = Inr s'
             \<and> suffix (read_buffer s') (read_buffer ?s0 @ ?d))"
    by (elim conjE) assumption
  with example_checker_full
  have "\<exists>s'. processSerialData example_checker (Suc (length (read_buffer ?s0 @ ?d))) ?d ?s0 = Inr s'
             \<and> suffix (read_buffer s') (read_buffer ?s0 @ ?d)"
    by blast
  then have 4: "\<exists>s'. processSerialData example_checker
               (Suc (length [0x10, 0x5B, 0x00, 0x5B, 0x16, 0xE5, 0x10 :: uchar])) ?d ?s0 = Inr s'
            \<and> suffix (read_buffer s') [0x10, 0x5B, 0x00, 0x5B, 0x16, 0xE5, 0x10]"
    by simp
  have 5: "processSerialData example_checker 8 ?d ?s0
     = Inr \<lparr>read_buffer = [0x10], handled = [[0x02, 0x5B, 0x00], []], protocol_errors = []\<rparr>"
    by (simp add: processSerialData_def example_checker_def frame_payload_def Let_def
          frame_loop_numeral)
  from 1 2 3 4 5 show ?thesis by blast
qed

subsection \<open>Multical603\<close>

lemma pc603_t1:
  "t1_temperature_c (MeterMultical603_processContent P vs m)
     = (case findKey P Instantaneous FlowTemperature 0 0 vs of
          None \<Rightarrow> t1_temperature_c m
        | Some key \<Rightarrow> snd (extractDVdouble P vs key (t1_temperature_c m)))"
  by (simp add: MeterMultical603_processContent_def Let_def case_prod_beta split: option.split)

lemma pc603_has_t1:
  "has_t1_temperature (MeterMultical603_processContent P vs m)
     = (case findKey P Instantaneous FlowTemperature 0 0 vs of
          None \<Rightarrow> has_t1_temperature m
        | Some key \<Rightarrow> fst (extractDVdouble P vs key (t1_temperature_c m)))"
  by (simp add: MeterMultical603_processContent_def Let_def case_prod_beta split: option.split)

lemma pc603_t2:
  "t2_temperature_c (MeterMultical603_processContent P vs m)
     = (case findKey P Instantaneous ReturnTemperature 0 0 vs of
          None \<Rightarrow> t2_temperature_c m
        | Some key \<Rightarrow> snd (extractDVdouble P vs key (t2_temperature_c m)))"
  by (simp add: MeterMultical603_processContent_def Let_def case_prod_beta split: option.split)

lemma pc603_has_t2:
  "has_t2_temperature (MeterMultical603_processContent P vs m)
     = (case findKey P Instantaneous ReturnTemperature 0 0 vs of
          None \<Rightarrow> has_t2_temperature m
        | Some key \<Rightarrow> fst (extractDVdouble P vs key (t2_temperature_c m)))"
  by (simp add: MeterMultical603_processContent_def Let_def case_prod_beta split: option.split)

text \<open>
  C10.  A freshly constructed Multical603 meter has both temperatures at 127 and both
  has-flags false.  Processing a telegram in which \<^verbatim>\<open>findKey\<close> finds no instantaneous
  flow temperature record leaves the T1 temperature and its flag as they were, and
  likewise for the return temperature and T2.  A has-flag that was false is true
  afterwards only if the record was found and \<^verbatim>\<open>extractDVdouble\<close> returned true for
  it; whenever the record is found the flag is the return value of that extraction.
\<close>

theorem multical603_temperatures:
  "t1_temperature_c MeterMultical603_init = 127
   \<and> t2_temperature_c MeterMultical603_init = 127
   \<and> hasT1Temperature MeterMultical603_init = False
   \<and> hasT2Temperature MeterMultical603_init = False
   \<and> (findKey P Instantaneous FlowTemperature 0 0 vs = None \<longrightarrow>
        t1_temperature_c (MeterMultical603_processContent P vs m) = t1_temperature_c m
        \<and> hasT1Temperature (MeterMultical603_processContent P vs m) = hasT1Temperature m)
   \<and> (findKey P Instantaneous ReturnTemperature 0 0 vs = None \<longrightarrow>
        t2_temperature_c (MeterMultical603_processContent P vs m) = t2_temperature_c m
        \<and> hasT2Temperature (MeterMultical603_processContent P vs m) = hasT2Temperature m)
   \<and> (hasT1Temperature (MeterMultical603_processContent P vs m) \<and> \<not> hasT1Temperature m \<longrightarrow>
        (\<exists>key. findKey P Instantaneous FlowTemperature 0 0 vs = Some key
               \<and> fst (extractDVdouble P vs key (t1_temperature_c m))))
   \<and> (hasT2Temperature (MeterMultical603_processContent P vs m) \<and> \<not> hasT2Temperature m \<longrightarrow>
        (\<exists>key. findKey P Instantaneous ReturnTemperature 0 0 vs = Some key
               \<and> fst (extractDVdouble P vs key (t2_temperature_c m))))
   \<and> (\<forall>key. findKey P Instantaneous FlowTemperature 0 0 vs = Some key \<longrightarrow>
        hasT1Temperature (MeterMultical603_processContent P vs m)
          = fst (extractDVdouble P vs key (t1_temperature_c m)))
   \<and> (\<forall>key. findKey P Instantaneous ReturnTemperature 0 0 vs = Some key \<longrightarrow>
        hasT2Temperature (MeterMultical603_processContent P vs m)
          = fst (extractDVdouble P vs key (t2_temperature_c m)))"
proof -
  have init: "t1_temperature_c MeterMultical603_init = 127"
    "t2_temperature_c MeterMultical603_init = 127"
    "hasT1Temperature MeterMultical603_init = False"
    "hasT2Temperature MeterMultical603_init = False"
    by (simp_all add: MeterMultical603_init_def hasT1Temperature_def hasT2Temperature_def)
  have t1: "findKey P Instantaneous FlowTemperature 0 0 vs = None \<longrightarrow>
        t1_temperature_c (MeterMultical603_processContent P vs m) = t1_temperature_c m
        \<and> hasT1Temperature (MeterMultical603_processContent P vs m) = hasT1Temperature m"
    by (simp add: pc603_t1 pc603_has_t1 hasT1Temperature_def)
  have t2: "findKey P Instantaneous ReturnTemperature 0 0 vs = None \<longrightarrow>
        t2_temperature_c (MeterMultical603_processContent P vs m) = t2_temperature_c m
        \<and> hasT2Temperature (MeterMultical603_processContent P vs m) = hasT2Temperature m"
    by (simp add: pc603_t2 pc603_has_t2 hasT2Temperature_def)
  have o1: "hasT1Temperature (MeterMultical603_processContent P vs m) \<and> \<not> hasT1Temperature m \<longrightarrow>
        (\<exists>key. findKey P Instantaneous FlowTemperature 0 0 vs = Some key
               \<and> fst (extractDVdouble P vs key (t1_temperature_c m)))"
    by (cases "findKey P Instantaneous FlowTemperature 0 0 vs")
       (simp_all add: pc603_has_t1 hasT1Temperature_def)
  have o2: "hasT2Temperature (MeterMultical603_processContent P vs m) \<and> \<not> hasT2Temperature m \<longrightarrow>
        (\<exists>key. findKey P Instantaneous ReturnTemperature 0 0 vs = Some key
               \<and> fst (extractDVdouble P vs key (t2_temperature_c m)))"
    by (cases "findKey P Instantaneous ReturnTemperature 0 0 vs")
       (simp_all add: pc603_has_t2 hasT2Temperature_def)
  have s1: "\<forall>key. findKey P Instantaneous FlowTemperature 0 0 vs = Some key \<longrightarrow>
        hasT1Temperature (MeterMultical603_processContent P vs m)
          = fst (extractDVdouble P vs key (t1_temperature_c m))"
    by (simp add: pc603_has_t1 hasT1Temperature_def)
  have s2: "\<forall>key. findKey P Instantaneous ReturnTemperature 0 0 vs = Some key \<longrightarrow>
        hasT2Temperature (MeterMultical603_processContent P vs m)
          = fst (extractDVdouble P vs key (t2_temperature_c m))"
    by (simp add: pc603_has_t2 hasT2Temperature_def)
  from init t1 t2 o1 o2 s1 s2 show ?thesis by blast
qed

theorem multical603_temperatures_witness:
  "findKey example_parser Instantaneous FlowTemperature 0 0 Map.empty = None
   \<and> t1_temperature_c (MeterMultical603_processContent example_parser Map.empty MeterMultical603_init) = 127
   \<and> hasT1Temperature (MeterMultical603_processContent example_parser Map.empty MeterMultical603_init) = False
   \<and> findKey example_parser Instantaneous ReturnTemperature 0 0 example_values = None
   \<and> t2_temperature_c (MeterMultical603_processContent example_parser example_values MeterMultical603_init) = 127
   \<and> hasT2Temperature (MeterMultical603_processContent example_parser example_values MeterMultical603_init) = False
   \<and> findKey example_parser Instantaneous FlowTemperature 0 0 example_values = Some ''0259''
   \<and> hasT1Temperature (MeterMultical603_processContent example_parser example_values MeterMultical603_init) = True"
proof -
  have k0: "findKey example_parser Instantaneous FlowTemperature 0 0 Map.empty = None"
    and k1: "findKey example_parser Instantaneous ReturnTemperature 0 0 example_values = None"
    and k2: "findKey example_parser Instantaneous FlowTemperature 0 0 example_values = Some ''0259''"
    and x: "fst (extractDVdouble example_parser example_values ''0259'' 127) = True"
    by (simp_all add: example_parser_def example_values_def)
  from multical603_temperatures [where P = example_parser and vs = Map.empty and m = MeterMultical603_init] k0
  have a: "t1_temperature_c (MeterMultical603_processContent example_parser Map.empty MeterMultical603_init) = 127"
    and b: "hasT1Temperature (MeterMultical603_processContent example_parser Map.empty MeterMultical603_init) = False"
    by simp_all
  from multical603_temperatures [where P = example_parser and vs = example_values and m = MeterMultical603_init] k1
  have c: "t2_temperature_c (MeterMultical603_processContent example_parser example_values MeterMultical603_init) = 127"
    and d: "hasT2Temperature (MeterMultical603_processContent example_parser example_values MeterMultical603_init) = False"
    by simp_all
  from multical603_temperatures [where P = example_parser and vs = example_values and m = MeterMultical603_init] k2 x
  have e: "hasT1Temperature (MeterMultical603_processContent example_parser example_values MeterMultical603_init) = True"
    by simp
  from k0 k1 k2 a b c d e show ?thesis by blast
qed

subsection \<open>Closing a source\<close>

lemma call_count:
  "call c d = (d', n) \<Longrightarrow>
     n \<le> (if m_on_disappear d then 1 else 0) \<and> (m_on_disappear d' \<longrightarrow> m_on_disappear d)
     \<and> (n = 1 \<longrightarrow> \<not> m_on_disappear d')"
  by (cases c; cases "kind d")
     (auto simp: close_def SerialDeviceTTY_close_def SerialDeviceCommand_close_def
        SerialDeviceFile_close_def SerialDeviceSimulator_close_def
        resetInitiated_def resetCompleted_def Let_def split: if_splits)

lemma calls_count:
  "snd (calls cs d) \<le> (if m_on_disappear d then 1 else 0)"
proof (induction cs arbitrary: d)
  case Nil
  show ?case by simp
next
  case (Cons c cs)
  obtain d1 n1 where c1: "call c d = (d1, n1)" by (cases "call c d")
  obtain d2 n2 where c2: "calls cs d1 = (d2, n2)" by (cases "calls cs d1")
  from Cons.IH [of d1] c2 have n2: "n2 \<le> (if m_on_disappear d1 then 1 else 0)" by simp
  from call_count [OF c1] n2 have "n1 + n2 \<le> (if m_on_disappear d then 1 else 0)"
    by (auto split: if_splits)
  with c1 c2 show ?case by simp
qed

lemma close_fires:
  "kind d = KindTTY \<or> kind d = KindCommand \<Longrightarrow> m_on_disappear d \<Longrightarrow> \<not> m_resetting d \<Longrightarrow>
   m_fd d \<noteq> -1 \<Longrightarrow>
     snd (close d) = 1 \<and> \<not> m_on_disappear (fst (close d)) \<and> m_fd (fst (close d)) = -1"
  by (auto simp: close_def SerialDeviceTTY_close_def SerialDeviceCommand_close_def Let_def
        split: if_splits)

lemma close_resetting: "m_resetting d \<Longrightarrow> snd (close d) = 0"
  by (cases "kind d")
     (auto simp: close_def SerialDeviceTTY_close_def SerialDeviceCommand_close_def
        SerialDeviceFile_close_def SerialDeviceSimulator_close_def Let_def split: if_splits)

lemma close_twice: "snd (close (fst (close d))) = 0"
  by (cases "kind d")
     (auto simp: close_def SerialDeviceTTY_close_def SerialDeviceCommand_close_def
        SerialDeviceFile_close_def SerialDeviceSimulator_close_def Let_def split: if_splits)

text \<open>
  C9, as amended.  A \<^verbatim>\<open>close()\<close> of a TTY or sub-process source that is open, not
  resetting and has the callback installed invokes \<^verbatim>\<open>on_disappear_\<close> once, clears it
  and leaves the descriptor at \<open>-1\<close>.  A \<^verbatim>\<open>close()\<close> during a reset invokes nothing,
  and neither does a \<^verbatim>\<open>close()\<close> that follows a \<^verbatim>\<open>close()\<close>.  Over any sequence of
  \<^verbatim>\<open>close()\<close>, \<^verbatim>\<open>resetInitiated()\<close> and \<^verbatim>\<open>resetCompleted()\<close> calls the callback is
  invoked at most once.
\<close>

theorem on_disappear_at_most_once:
  "((kind d = KindTTY \<or> kind d = KindCommand) \<and> m_on_disappear d \<and> \<not> m_resetting d
      \<and> m_fd d \<noteq> -1 \<longrightarrow>
      snd (close d) = 1 \<and> \<not> m_on_disappear (fst (close d)) \<and> m_fd (fst (close d)) = -1)
   \<and> (m_resetting d \<longrightarrow> snd (close d) = 0)
   \<and> snd (close (fst (close d))) = 0
   \<and> snd (calls cs d) \<le> 1"
proof -
  have "snd (calls cs d) \<le> (if m_on_disappear d then 1 else 0)" by (rule calls_count)
  then have "snd (calls cs d) \<le> 1" by (simp split: if_splits)
  with close_fires [of d] close_resetting [of d] close_twice [of d] show ?thesis by blast
qed

theorem on_disappear_at_most_once_witness:
  "close (example_tty 5) = ((example_tty 5)\<lparr>m_fd := -1, m_on_disappear := False\<rparr>, 1)
   \<and> snd (close (resetInitiated (example_tty 5))) = 0
   \<and> snd (close (fst (close (example_tty 5)))) = 0
   \<and> snd (calls [CallClose, CallResetInitiated, CallClose, CallResetCompleted, CallClose]
             (example_tty 5)) = 1"
proof -
  have k: "(kind (example_tty 5) = KindTTY \<or> kind (example_tty 5) = KindCommand)
           \<and> m_on_disappear (example_tty 5) \<and> \<not> m_resetting (example_tty 5)
           \<and> m_fd (example_tty 5) \<noteq> -1"
    by (simp add: example_tty_def new_device_def)
  have r: "m_resetting (resetInitiated (example_tty 5))"
    by (simp add: resetInitiated_def)
  from on_disappear_at_most_once [of "example_tty 5" "[]"] k
  have a: "snd (close (example_tty 5)) = 1" and b: "snd (close (fst (close (example_tty 5)))) = 0"
    by simp_all
  from on_disappear_at_most_once [of "resetInitiated (example_tty 5)" "[]"] r
  have c: "snd (close (resetInitiated (example_tty 5))) = 0"
    by simp
  have d: "close (example_tty 5) = ((example_tty 5)\<lparr>m_fd := -1, m_on_disappear := False\<rparr>, 1)"
    by (simp add: close_def SerialDeviceTTY_close_def example_tty_def new_device_def Let_def)
  have e: "snd (calls [CallClose, CallResetInitiated, CallClose, CallResetCompleted, CallClose]
             (example_tty 5)) = 1"
    by (simp add: close_def SerialDeviceTTY_close_def example_tty_def new_device_def Let_def
          resetInitiated_def resetCompleted_def)
  from a b c d e show ?thesis by simp
qed

text \<open>
  C9 as stated fails: a TTY source that is closed during a reset has its descriptor at
  \<open>-1\<close> afterwards, so the first \<^verbatim>\<open>close()\<close> executed while it is not resetting
  returns at once; the callback is still installed and was never invoked.
\<close>

theorem on_disappear_reset_counterexample:
  "calls [CallResetInitiated, CallClose, CallResetCompleted, CallClose] (example_tty 5)
     = ((example_tty 5)\<lparr>m_fd := -1\<rparr>, 0)
   \<and> m_on_disappear ((example_tty 5)\<lparr>m_fd := -1\<rparr>) = True
   \<and> m_resetting (fst (calls [CallResetInitiated, CallClose, CallResetCompleted] (example_tty 5)))
       = False"
  by (simp add: close_def SerialDeviceTTY_close_def example_tty_def new_device_def Let_def
        resetInitiated_def resetCompleted_def)

subsection \<open>The event loop\<close>

lemma erase_non_working_filter:
  "erase_non_working ds = filter (\<lambda>d. \<not> (opened d \<and> \<not> working d)) ds"
  by (induction ds) auto

lemma list_descriptors_eq:
  "list_descriptors ds (fds, aw) =
     (fds @ map fd (filter (\<lambda>sd. opened sd \<and> working sd \<and> \<not> skippingCallbacks sd
                                 \<and> \<not> resetting sd \<and> 0 \<le> fd sd) ds),
      aw \<and> (\<forall>sd \<in> set ds. \<not> (opened sd \<and> \<not> working sd)))"
  by (induction ds arbitrary: fds aw) (auto simp: Let_def)



lemma removeNonWorking_running:
  "running (removeNonWorkingSerialDevices m) =
     (running m \<and> \<not> (erase_non_working (serial_devices m) = [] \<and> expect_devices_to_work m))"
  by (auto simp: removeNonWorkingSerialDevices_def stop_def Let_def)

lemma removeNonWorking_expect:
  "expect_devices_to_work (removeNonWorkingSerialDevices m) = expect_devices_to_work m"
  by (auto simp: removeNonWorkingSerialDevices_def stop_def Let_def)


lemma sweep_expect: "expect_devices_to_work (fst (sweep m)) = expect_devices_to_work m"
  by (simp add: sweep_def Let_def case_prod_beta stop_def removeNonWorkingSerialDevices_def)

lemma sweep_unlatched:
  "\<not> expect_devices_to_work m \<Longrightarrow> running (fst (sweep m)) = running m \<and> snd (sweep m)"
  by (simp add: sweep_def Let_def case_prod_beta removeNonWorking_running removeNonWorking_expect)

lemma sweep_empty:
  "serial_devices m = [] \<Longrightarrow> expect_devices_to_work m \<Longrightarrow> \<not> running (fst (sweep m))"
  by (simp add: sweep_def Let_def removeNonWorking_running)

lemma deliver_running: "running (deliver cb sel rf m) = running m"
  by (simp add: deliver_def Let_def)

lemma deliver_expect: "expect_devices_to_work (deliver cb sel rf m) = expect_devices_to_work m"
  by (simp add: deliver_def Let_def)

lemma deliver_empty: "serial_devices m = [] \<Longrightarrow> deliver cb sel rf m = m"
  by (simp add: deliver_def Let_def)


lemma round_latched:
  assumes "expect_devices_to_work m" and "\<forall>d \<in> set (serial_devices m). opened d \<and> \<not> working d"
  shows "\<not> running (fst (eventLoop_round cb sel m))"
proof (cases "serial_devices m")
  case Nil
  then have "running (fst (eventLoop_round cb sel m)) \<Longrightarrow> False"
    using assms(1) sweep_empty [of "deliver cb sel [] (if stopped_meanwhile sel then stop m else m)"]
    by (simp add: eventLoop_round_def Let_def deliver_empty stop_def split: if_splits)
  then show ?thesis by blast
next
  case (Cons d ds)
  with assms(2) have "\<not> (\<forall>sd \<in> set (serial_devices m). \<not> (opened sd \<and> \<not> working sd))" by auto
  then show ?thesis using assms(1)
    by (simp add: eventLoop_round_def list_descriptors_eq stop_def)
qed

lemma round_unlatched:
  assumes "\<not> expect_devices_to_work m" and "running m" and "\<not> stopped_meanwhile sel"
  shows "running (fst (eventLoop_round cb sel m)) \<and> snd (eventLoop_round cb sel m)
         \<and> \<not> expect_devices_to_work (fst (eventLoop_round cb sel m))"
  using assms
  by (simp add: eventLoop_round_def list_descriptors_eq Let_def
        sweep_unlatched sweep_expect deliver_running deliver_expect)

lemma eventLoop_unlatched:
  "\<not> expect_devices_to_work m \<Longrightarrow> running m \<Longrightarrow> \<forall>sel \<in> set sels. \<not> stopped_meanwhile sel \<Longrightarrow>
     eventLoop cb sels m = Inl StillRunning"
proof (induction sels arbitrary: m)
  case Nil
  then show ?case by simp
next
  case (Cons sel sels)
  obtain m' g where r: "eventLoop_round cb sel m = (m', g)" by (cases "eventLoop_round cb sel m")
  from round_unlatched [OF Cons.prems(1,2), of sel cb] Cons.prems(3) r
  have "running m'" "g" "\<not> expect_devices_to_work m'" by simp_all
  with Cons.IH [of m'] Cons.prems r show ?case by simp
qed


lemma eventLoop_stopped: "\<not> running m \<Longrightarrow> eventLoop cb sels m = Inr m"
  by (cases sels) simp_all

lemma eventLoop_latched:
  assumes "expect_devices_to_work m" and "\<forall>d \<in> set (serial_devices m). opened d \<and> \<not> working d"
  shows "\<exists>m'. eventLoop cb (sel # sels) m = Inr m' \<and> \<not> running m'"
proof (cases "running m")
  case False
  then show ?thesis by simp
next
  case True
  obtain m' g where r: "eventLoop_round cb sel m = (m', g)" by (cases "eventLoop_round cb sel m")
  from round_latched [OF assms, of cb sel] r have nr: "\<not> running m'" by simp
  with True r eventLoop_stopped [OF nr, of cb sels] show ?thesis by simp
qed

text \<open>
  C3.  With \<^verbatim>\<open>expect_devices_to_work_\<close> set, once every source in the list is opened
  and not working, \<^verbatim>\<open>removeNonWorkingSerialDevices\<close> leaves \<^verbatim>\<open>running_\<close> false, so does
  a round of the event loop, and the event loop returns with \<^verbatim>\<open>running_\<close> false.
  Without it, \<^verbatim>\<open>removeNonWorkingSerialDevices\<close> leaves \<^verbatim>\<open>running_\<close> as it was, a
  round of the event loop of a running manager (that no other thread stops) ends with the
  manager running and goes on, and the event loop does not return, whatever the sources
  do.
\<close>

theorem emergency_stop:
  "(expect_devices_to_work m \<and> (\<forall>d \<in> set (serial_devices m). opened d \<and> \<not> working d) \<longrightarrow>
      \<not> running (removeNonWorkingSerialDevices m)
      \<and> \<not> running (fst (eventLoop_round cb sel m))
      \<and> (\<exists>m'. eventLoop cb (sel # sels) m = Inr m' \<and> \<not> running m'))
   \<and> (\<not> expect_devices_to_work m \<longrightarrow>
      running (removeNonWorkingSerialDevices m) = running m
      \<and> (running m \<and> \<not> stopped_meanwhile sel \<longrightarrow>
           running (fst (eventLoop_round cb sel m)) \<and> snd (eventLoop_round cb sel m))
      \<and> (running m \<and> (\<forall>sel \<in> set sels. \<not> stopped_meanwhile sel) \<longrightarrow>
           eventLoop cb sels m = Inl StillRunning))"
proof -
  have a: "expect_devices_to_work m \<and> (\<forall>d \<in> set (serial_devices m). opened d \<and> \<not> working d) \<longrightarrow>
      \<not> running (removeNonWorkingSerialDevices m)"
    by (simp add: removeNonWorking_running erase_non_working_filter)
  have b: "expect_devices_to_work m \<and> (\<forall>d \<in> set (serial_devices m). opened d \<and> \<not> working d) \<longrightarrow>
      \<not> running (fst (eventLoop_round cb sel m))"
    using round_latched [of m cb sel] by blast
  have c: "expect_devices_to_work m \<and> (\<forall>d \<in> set (serial_devices m). opened d \<and> \<not> working d) \<longrightarrow>
      (\<exists>m'. eventLoop cb (sel # sels) m = Inr m' \<and> \<not> running m')"
    using eventLoop_latched [of m cb sel sels] by blast
  have d: "\<not> expect_devices_to_work m \<longrightarrow> running (removeNonWorkingSerialDevices m) = running m"
    by (simp add: removeNonWorking_running)
  have e: "\<not> expect_devices_to_work m \<longrightarrow> running m \<and> \<not> stopped_meanwhile sel \<longrightarrow>
           running (fst (eventLoop_round cb sel m)) \<and> snd (eventLoop_round cb sel m)"
    using round_unlatched [of m sel cb] by blast
  have f: "\<not> expect_devices_to_work m \<longrightarrow> running m \<and> (\<forall>sel \<in> set sels. \<not> stopped_meanwhile sel) \<longrightarrow>
           eventLoop cb sels m = Inl StillRunning"
    using eventLoop_unlatched [of m sels cb] by blast
  from a b c d e f show ?thesis by blast
qed

theorem emergency_stop_witness:
  "opened ((example_tty 5)\<lparr>os_device_exists := False\<rparr>) = True
   \<and> working ((example_tty 5)\<lparr>os_device_exists := False\<rparr>) = False
   \<and> running (fst (eventLoop_round (\<lambda>ds. ds) \<lparr>activity = 0, ready = [], stopped_meanwhile = False\<rparr>
        \<lparr>running = True, expect_devices_to_work = True,
         serial_devices = [(example_tty 5)\<lparr>os_device_exists := False\<rparr>],
         notified = [], disappeared = 0\<rparr>)) = False
   \<and> eventLoop_round (\<lambda>ds. ds) \<lparr>activity = 0, ready = [], stopped_meanwhile = False\<rparr>
        \<lparr>running = True, expect_devices_to_work = False,
         serial_devices = [(example_tty 5)\<lparr>os_device_exists := False\<rparr>],
         notified = [], disappeared = 0\<rparr>
       = (\<lparr>running = True, expect_devices_to_work = False, serial_devices = [],
           notified = [], disappeared = 1\<rparr>, True)
   \<and> running (fst (eventLoop_round (\<lambda>ds. ds) \<lparr>activity = 0, ready = [], stopped_meanwhile = False\<rparr>
        \<lparr>running = True, expect_devices_to_work = False,
         serial_devices = [(example_tty 5)\<lparr>os_device_exists := False\<rparr>],
         notified = [], disappeared = 0\<rparr>)) = True"
proof -
  let ?d = "(example_tty 5)\<lparr>os_device_exists := False\<rparr>"
  let ?sel = "\<lparr>activity = 0, ready = [], stopped_meanwhile = False\<rparr>"
  let ?m1 = "\<lparr>running = True, expect_devices_to_work = True, serial_devices = [?d],
              notified = [], disappeared = 0\<rparr>"
  let ?m0 = "\<lparr>running = True, expect_devices_to_work = False, serial_devices = [?d],
              notified = [], disappeared = 0\<rparr>"
  have o: "opened ?d = True" and w: "working ?d = False"
    by (simp_all add: opened_def working_def example_tty_def new_device_def)
  have h1: "expect_devices_to_work ?m1 \<and> (\<forall>d \<in> set (serial_devices ?m1). opened d \<and> \<not> working d)"
    using o w by simp
  from emergency_stop [of ?m1 "\<lambda>ds. ds" ?sel "[]"] h1
  have a: "running (fst (eventLoop_round (\<lambda>ds. ds) ?sel ?m1)) = False"
    by blast
  have h0: "\<not> expect_devices_to_work ?m0" "running ?m0 \<and> \<not> stopped_meanwhile ?sel"
    by simp_all
  from emergency_stop [of ?m0 "\<lambda>ds. ds" ?sel "[]"] h0
  have b: "running (fst (eventLoop_round (\<lambda>ds. ds) ?sel ?m0)) = True"
    by blast
  have c: "eventLoop_round (\<lambda>ds. ds) ?sel ?m0
       = (\<lparr>running = True, expect_devices_to_work = False, serial_devices = [],
           notified = [], disappeared = 1\<rparr>, True)"
    by (simp add: eventLoop_round_def sweep_def deliver_def removeNonWorkingSerialDevices_def
          Let_def opened_def working_def isClosed_def skippingCallbacks_def resetting_def fd_def
          close_def SerialDeviceTTY_close_def example_tty_def new_device_def stop_def)
  from o w a b c show ?thesis by simp
qed




subsection \<open>The simulator\<close>

lemma scan_line_no_plus:
  "CHR ''+'' \<notin> set cs \<Longrightarrow> scan_line cs = (filter (\<lambda>c. c \<noteq> CHR ''|'') cs, None)"
  by (induction cs) auto

lemma scan_line_timed:
  "CHR ''+'' \<notin> set pre \<Longrightarrow>
     scan_line (pre @ CHR ''+'' # secs) = (filter (\<lambda>c. c \<noteq> CHR ''|'') pre, Some (atoi secs))"
  by (induction pre) auto

lemma atoi_fits:
  "- (2 ^ 31) \<le> strtol_value s \<Longrightarrow> strtol_value s < 2 ^ 31 \<Longrightarrow> atoi s = strtol_value s"
proof -
  assume a: "- (2 ^ 31) \<le> strtol_value s" "strtol_value s < 2 ^ 31"
  then have "strtol s = strtol_value s" by (simp add: strtol_def)
  moreover have "sint (word_of_int (strtol_value s) :: 32 word) = strtol_value s"
    using a by (simp add: signed_of_int signed_take_bit_int_eq_self)
  ultimately show ?thesis by (simp add: atoi_def)
qed

lemma wait_loop_polls:
  "wait_loop deadline cs ps = Inr (cs', ps', t) \<Longrightarrow>
     \<exists>u. ps = u @ ps' \<and> (deadline < t \<or> (u \<noteq> [] \<and> \<not> last u))"
proof (induction cs arbitrary: ps)
  case Nil
  then show ?case by simp
next
  case (Cons c cs)
  note run = Cons.prems and IH = Cons.IH
  show ?case
  proof (cases "c > deadline")
    case True
    with run have "ps = [] @ ps' \<and> deadline < t" by simp
    then show ?thesis by blast
  next
    case False
    show ?thesis
    proof (cases ps)
      case Nil
      with False run show ?thesis by simp
    next
      case ps: (Cons p ps2)
      show ?thesis
      proof (cases p)
        case False
        with \<open>\<not> c > deadline\<close> ps run have "ps = [p] @ ps' \<and> [p] \<noteq> [] \<and> \<not> last [p]" by simp
        then show ?thesis by blast
      next
        case True
        with \<open>\<not> c > deadline\<close> ps run have "wait_loop deadline cs ps2 = Inr (cs', ps', t)" by simp
        from IH [OF this] obtain u where u: "ps2 = u @ ps'" "deadline < t \<or> (u \<noteq> [] \<and> \<not> last u)"
          by blast
        from ps u have "ps = (p # u) @ ps' \<and> (deadline < t \<or> (p # u \<noteq> [] \<and> \<not> last (p # u)))"
          by auto
        then show ?thesis by blast
      qed
    qed
  qed
qed

lemma wait_for_polls:
  assumes "wait_for start_time rel_time w = Inr w1"
  shows "events w1 = events w
         \<and> (\<exists>u. polls w = u @ polls w1
                 \<and> (start_time + rel_time \<le> last_time w1 \<or> (u \<noteq> [] \<and> \<not> last u)))"
proof (cases "clock w")
  case Nil
  with assms show ?thesis by (simp add: wait_for_def)
next
  case (Cons c cs)
  show ?thesis
  proof (cases "c < start_time + rel_time")
    case False
    with Cons assms have "events w1 = events w" "polls w = [] @ polls w1"
      "start_time + rel_time \<le> last_time w1"
      by (auto simp: wait_for_def)
    then show ?thesis by blast
  next
    case True
    with Cons assms obtain cs' ps' t where
      r: "wait_loop (start_time + rel_time) cs (polls w) = Inr (cs', ps', t)"
      and w1: "w1 = w\<lparr>clock := cs', polls := ps', last_time := t\<rparr>"
      by (auto simp: wait_for_def split: sum.splits)
    from wait_loop_polls [OF r] obtain u where
      "polls w = u @ ps'" "start_time + rel_time < t \<or> (u \<noteq> [] \<and> \<not> last u)" by blast
    with w1 have "events w1 = events w" "polls w = u @ polls w1"
      "start_time + rel_time \<le> last_time w1 \<or> (u \<noteq> [] \<and> \<not> last u)"
      by auto
    then show ?thesis by blast
  qed
qed

lemma wait_for_deadline:
  assumes "wait_for start_time rel_time w = Inr w1" and "polls w = used @ polls w1"
    and "\<forall>q \<in> set used. q"
  shows "start_time + rel_time \<le> last_time w1"
proof -
  from wait_for_polls [OF assms(1)] obtain u where
    u: "polls w = u @ polls w1" "start_time + rel_time \<le> last_time w1 \<or> (u \<noteq> [] \<and> \<not> last u)"
    by blast
  from u(1) assms(2) have "u = used" by simp
  with u(2) assms(3) show ?thesis by (auto dest: last_in_set)
qed

lemma wait_for_events: "wait_for start_time rel_time w = Inr w1 \<Longrightarrow> events w1 = events w"
  by (auto simp: wait_for_def split: list.splits if_splits sum.splits)

lemma simulate_lines_events:
  "simulate_lines h st ls w = Inr w' \<Longrightarrow>
     \<exists>es. events w' = events w @ es \<and> Stopped \<notin> set es
          \<and> length es = length (filter (\<lambda>l. take 9 l = ''telegram='') ls)"
proof (induction ls arbitrary: w)
  case Nil
  then show ?case by simp
next
  case (Cons l ls)
  show ?case
  proof (cases "take 9 l = ''telegram=''")
    case False
    with Cons.prems have "simulate_lines h st ls w = Inr w'" by simp
    from Cons.IH [OF this] False show ?thesis by simp
  next
    case True
    obtain hex found where sc: "scan_line (drop 9 l) = (hex, found)" by (cases "scan_line (drop 9 l)")
    from True sc Cons.prems obtain w1 p where
      w1: "(case found of Some rel_time \<Rightarrow> wait_for st rel_time w | None \<Rightarrow> Inr w) = Inr w1"
      and p: "h hex = Some p"
      and rest: "simulate_lines h st ls (w1\<lparr>events := events w1 @ [Handled p (last_time w1)]\<rparr>) = Inr w'"
      by (auto split: sum.splits option.splits)
    from w1 have ev: "events w1 = events w"
      by (cases found) (auto dest: wait_for_events)
    from Cons.IH [OF rest] obtain es where
      es: "events w' = (events w1 @ [Handled p (last_time w1)]) @ es" "Stopped \<notin> set es"
          "length es = length (filter (\<lambda>l. take 9 l = ''telegram='') ls)"
      by auto
    let ?es = "Handled p (last_time w1) # es"
    from es ev True have "events w' = events w @ ?es \<and> Stopped \<notin> set ?es
          \<and> length ?es = length (filter (\<lambda>l. take 9 l = ''telegram='') (l # ls))"
      by simp
    then show ?thesis by blast
  qed
qed

lemma wait_loop_returns:
  "deadline \<le> D \<Longrightarrow> length cs \<le> length ps \<Longrightarrow> 1 \<le> length (filter (\<lambda>c. D < c) cs) \<Longrightarrow>
     \<exists>cs' ps' t. wait_loop deadline cs ps = Inr (cs', ps', t)
        \<and> length cs' \<le> length ps'
        \<and> length (filter (\<lambda>c. D < c) cs) \<le> Suc (length (filter (\<lambda>c. D < c) cs'))"
proof (induction cs arbitrary: ps)
  case Nil
  then show ?case by simp
next
  case (Cons c cs)
  show ?case
  proof (cases "c > deadline")
    case True
    with Cons.prems show ?thesis by simp
  next
    case False
    with Cons.prems(1) have nD: "\<not> D < c" by simp
    from Cons.prems(2) obtain p ps2 where ps: "ps = p # ps2" by (cases ps) auto
    show ?thesis
    proof (cases p)
      case False
      with \<open>\<not> c > deadline\<close> ps nD Cons.prems show ?thesis by simp
    next
      case True
      have "\<exists>cs' ps' t. wait_loop deadline cs ps2 = Inr (cs', ps', t)
        \<and> length cs' \<le> length ps'
        \<and> length (filter (\<lambda>c. D < c) cs) \<le> Suc (length (filter (\<lambda>c. D < c) cs'))"
        using Cons.prems ps nD by (intro Cons.IH) simp_all
      with True \<open>\<not> c > deadline\<close> ps nD show ?thesis by simp
    qed
  qed
qed

lemma wait_for_returns:
  assumes "start_time + rel_time \<le> D" and "length (clock w) \<le> length (polls w)"
    and "1 \<le> length (filter (\<lambda>c. D < c) (clock w))"
  shows "\<exists>w1. wait_for start_time rel_time w = Inr w1
           \<and> length (clock w1) \<le> length (polls w1)
           \<and> length (filter (\<lambda>c. D < c) (clock w)) \<le> Suc (length (filter (\<lambda>c. D < c) (clock w1)))"
proof (cases "clock w")
  case Nil
  with assms(3) show ?thesis by simp
next
  case (Cons c cs)
  show ?thesis
  proof (cases "c < start_time + rel_time")
    case False
    with Cons assms show ?thesis by (simp add: wait_for_def)
  next
    case True
    with assms(1) have nD: "\<not> D < c" by simp
    have "\<exists>cs' ps' t. wait_loop (start_time + rel_time) cs (polls w) = Inr (cs', ps', t)
        \<and> length cs' \<le> length ps'
        \<and> length (filter (\<lambda>c. D < c) cs) \<le> Suc (length (filter (\<lambda>c. D < c) cs'))"
      using assms Cons nD by (intro wait_loop_returns) simp_all
    then obtain cs' ps' t where
      r: "wait_loop (start_time + rel_time) cs (polls w) = Inr (cs', ps', t)"
      and l: "length cs' \<le> length ps'"
      and f: "length (filter (\<lambda>c. D < c) cs) \<le> Suc (length (filter (\<lambda>c. D < c) cs'))"
      by blast
    from True Cons r l f nD show ?thesis by (simp add: wait_for_def)
  qed
qed

lemma simulate_lines_returns:
  assumes h: "\<forall>l \<in> set ls. take 9 l = ''telegram='' \<longrightarrow> h (fst (scan_line (drop 9 l))) \<noteq> None"
    and d: "\<forall>l \<in> set ls. \<forall>rel. snd (scan_line (drop 9 l)) = Some rel \<longrightarrow> st + rel \<le> D"
  shows "length (clock w) \<le> length (polls w) \<Longrightarrow>
         length ls \<le> length (filter (\<lambda>c. D < c) (clock w)) \<Longrightarrow>
         \<exists>w'. simulate_lines h st ls w = Inr w'"
  using h d
proof (induction ls arbitrary: w)
  case Nil
  then show ?case by simp
next
  case (Cons l ls)
  have hs: "\<forall>l \<in> set ls. take 9 l = ''telegram='' \<longrightarrow> h (fst (scan_line (drop 9 l))) \<noteq> None"
    and ds: "\<forall>l \<in> set ls. \<forall>rel. snd (scan_line (drop 9 l)) = Some rel \<longrightarrow> st + rel \<le> D"
    using Cons.prems(3,4) by simp_all
  show ?case
  proof (cases "take 9 l = ''telegram=''")
    case False
    have "\<exists>w'. simulate_lines h st ls w = Inr w'"
      using Cons.prems(1,2) hs ds by (intro Cons.IH) simp_all
    with False show ?thesis by simp
  next
    case True
    obtain hex found where sc: "scan_line (drop 9 l) = (hex, found)" by (cases "scan_line (drop 9 l)")
    from True sc Cons.prems(3) obtain p where p: "h hex = Some p" by auto
    have "\<exists>w1. (case found of Some rel_time \<Rightarrow> wait_for st rel_time w | None \<Rightarrow> Inr w) = Inr w1
            \<and> length (clock w1) \<le> length (polls w1)
            \<and> length ls \<le> length (filter (\<lambda>c. D < c) (clock w1))"
    proof (cases found)
      case None
      with Cons.prems(1,2) show ?thesis by simp
    next
      case (Some rel)
      with sc Cons.prems(4) have "st + rel \<le> D" by simp
      from wait_for_returns [OF this Cons.prems(1)] Cons.prems(2)
      obtain w1 where "wait_for st rel w = Inr w1" "length (clock w1) \<le> length (polls w1)"
        "length (filter (\<lambda>c. D < c) (clock w)) \<le> Suc (length (filter (\<lambda>c. D < c) (clock w1)))"
        by auto
      with Some Cons.prems(2) show ?thesis by auto
    qed
    then obtain w1 where
      w1: "(case found of Some rel_time \<Rightarrow> wait_for st rel_time w | None \<Rightarrow> Inr w) = Inr w1"
      and l1: "length (clock w1) \<le> length (polls w1)"
      and f1: "length ls \<le> length (filter (\<lambda>c. D < c) (clock w1))"
      by blast
    let ?w2 = "w1\<lparr>events := events w1 @ [Handled p (last_time w1)]\<rparr>"
    have "\<exists>w'. simulate_lines h st ls ?w2 = Inr w'"
      using l1 f1 hs ds by (intro Cons.IH) simp_all
    with True sc w1 p show ?thesis by simp
  qed
qed

text \<open>
  C8, as amended.  In the loop of \<^verbatim>\<open>simulate\<close> over the script: a line that does not
  begin with \<open>telegram=\<close> is ignored; a telegram line without \<open>+\<close> is handed to
  \<^verbatim>\<open>handleTelegram\<close> at once, with no look at the clock; for a line
  \<open>telegram=<hex>|+<seconds>\<close>, when every poll of \<^verbatim>\<open>isRunning\<close> made during the
  wait answers true, the telegram is handed over only after the clock was read at
  \<open>start_time + atoi(<seconds>)\<close> or later, and \<^verbatim>\<open>atoi\<close> yields the number as
  written whenever that fits in 32 bits.  When \<^verbatim>\<open>simulate\<close> returns it has handed
  over one telegram per telegram line and then, as the last thing, called \<^verbatim>\<open>stop()\<close>
  once.  It does return when \<^verbatim>\<open>hex2bin\<close> accepts every telegram line and the clock
  has, after the start, at least as many readings beyond every deadline of the script as
  the script has lines.
\<close>

theorem simulate_script:
  "(take 9 l \<noteq> ''telegram='' \<longrightarrow>
      simulate_lines h st (l # ls) w = simulate_lines h st ls w)
   \<and> (CHR ''+'' \<notin> set body \<and> h (filter (\<lambda>c. c \<noteq> CHR ''|'') body) = Some p \<longrightarrow>
      simulate_lines h st ((''telegram='' @ body) # ls) w
        = simulate_lines h st ls (w\<lparr>events := events w @ [Handled p (last_time w)]\<rparr>))
   \<and> (CHR ''+'' \<notin> set hex \<and> h (filter (\<lambda>c. c \<noteq> CHR ''|'') hex) = Some p
        \<and> wait_for st (atoi secs) w = Inr w_after
        \<and> polls w = used @ polls w_after \<and> (\<forall>q \<in> set used. q) \<longrightarrow>
      st + atoi secs \<le> last_time w_after
      \<and> simulate_lines h st ((''telegram='' @ hex @ ''|+'' @ secs) # ls) w
          = simulate_lines h st ls
              (w_after\<lparr>events := events w_after @ [Handled p (last_time w_after)]\<rparr>))
   \<and> (wait_for st (atoi secs) w = Inr w_after \<longrightarrow>
        (\<exists>u. polls w = u @ polls w_after))
   \<and> (- (2 ^ 31) \<le> strtol_value secs \<and> strtol_value secs < 2 ^ 31 \<longrightarrow>
        atoi secs = strtol_value secs)
   \<and> (simulate h lines w = Inr w' \<longrightarrow>
      (\<exists>es. events w' = events w @ es @ [Stopped] \<and> Stopped \<notin> set es
            \<and> length es = length (filter (\<lambda>l. take 9 l = ''telegram='') lines)))
   \<and> (clock w = t_start # cs \<and> length cs \<le> length (polls w)
        \<and> length lines \<le> length (filter (\<lambda>c. D < c) cs)
        \<and> (\<forall>l \<in> set lines. take 9 l = ''telegram='' \<longrightarrow> h (fst (scan_line (drop 9 l))) \<noteq> None)
        \<and> (\<forall>l \<in> set lines. \<forall>rel. snd (scan_line (drop 9 l)) = Some rel \<longrightarrow> t_start + rel \<le> D) \<longrightarrow>
      (\<exists>w'. simulate h lines w = Inr w'))"
proof -
  have a: "take 9 l \<noteq> ''telegram='' \<longrightarrow>
      simulate_lines h st (l # ls) w = simulate_lines h st ls w"
    by simp
  have b: "CHR ''+'' \<notin> set body \<and> h (filter (\<lambda>c. c \<noteq> CHR ''|'') body) = Some p \<longrightarrow>
      simulate_lines h st ((''telegram='' @ body) # ls) w
        = simulate_lines h st ls (w\<lparr>events := events w @ [Handled p (last_time w)]\<rparr>)"
    by (simp add: scan_line_no_plus)
  have c: "CHR ''+'' \<notin> set hex \<and> h (filter (\<lambda>c. c \<noteq> CHR ''|'') hex) = Some p
        \<and> wait_for st (atoi secs) w = Inr w_after
        \<and> polls w = used @ polls w_after \<and> (\<forall>q \<in> set used. q) \<longrightarrow>
      st + atoi secs \<le> last_time w_after
      \<and> simulate_lines h st ((''telegram='' @ hex @ ''|+'' @ secs) # ls) w
          = simulate_lines h st ls
              (w_after\<lparr>events := events w_after @ [Handled p (last_time w_after)]\<rparr>)"
  proof (intro impI, elim conjE)
    assume np: "CHR ''+'' \<notin> set hex" and hp: "h (filter (\<lambda>c. c \<noteq> CHR ''|'') hex) = Some p"
      and wf: "wait_for st (atoi secs) w = Inr w_after"
      and us: "polls w = used @ polls w_after" and polls: "\<forall>q \<in> set used. q"
    from np have "CHR ''+'' \<notin> set (hex @ ''|'')" by simp
    from scan_line_timed [OF this, of secs]
    have sc: "scan_line (hex @ ''|+'' @ secs) = (filter (\<lambda>c. c \<noteq> CHR ''|'') hex, Some (atoi secs))"
      by simp
    from wait_for_deadline [OF wf us polls] have "st + atoi secs \<le> last_time w_after" .
    moreover have "simulate_lines h st ((''telegram='' @ hex @ ''|+'' @ secs) # ls) w
          = simulate_lines h st ls
              (w_after\<lparr>events := events w_after @ [Handled p (last_time w_after)]\<rparr>)"
      using sc hp wf by simp
    ultimately show "st + atoi secs \<le> last_time w_after
      \<and> simulate_lines h st ((''telegram='' @ hex @ ''|+'' @ secs) # ls) w
          = simulate_lines h st ls
              (w_after\<lparr>events := events w_after @ [Handled p (last_time w_after)]\<rparr>)"
      by blast
  qed
  have c2: "wait_for st (atoi secs) w = Inr w_after \<longrightarrow> (\<exists>u. polls w = u @ polls w_after)"
    using wait_for_polls [of st "atoi secs" w w_after] by blast
  have c3: "- (2 ^ 31) \<le> strtol_value secs \<and> strtol_value secs < 2 ^ 31 \<longrightarrow>
        atoi secs = strtol_value secs"
    using atoi_fits [of secs] by blast
  have d: "simulate h lines w = Inr w' \<longrightarrow>
      (\<exists>es. events w' = events w @ es @ [Stopped] \<and> Stopped \<notin> set es
            \<and> length es = length (filter (\<lambda>l. take 9 l = ''telegram='') lines))"
  proof
    assume r: "simulate h lines w = Inr w'"
    then obtain t0 cs w2 where cl: "clock w = t0 # cs"
      and sl: "simulate_lines h t0 lines (w\<lparr>clock := cs, last_time := t0\<rparr>) = Inr w2"
      and w': "w' = w2\<lparr>events := events w2 @ [Stopped]\<rparr>"
      by (auto simp: simulate_def split: list.splits sum.splits)
    from simulate_lines_events [OF sl] obtain es where
      "events w2 = events w @ es" "Stopped \<notin> set es"
      "length es = length (filter (\<lambda>l. take 9 l = ''telegram='') lines)"
      by auto
    with w' show "\<exists>es. events w' = events w @ es @ [Stopped] \<and> Stopped \<notin> set es
            \<and> length es = length (filter (\<lambda>l. take 9 l = ''telegram='') lines)"
      by simp
  qed
  have e: "clock w = t_start # cs \<and> length cs \<le> length (polls w)
        \<and> length lines \<le> length (filter (\<lambda>c. D < c) cs)
        \<and> (\<forall>l \<in> set lines. take 9 l = ''telegram='' \<longrightarrow> h (fst (scan_line (drop 9 l))) \<noteq> None)
        \<and> (\<forall>l \<in> set lines. \<forall>rel. snd (scan_line (drop 9 l)) = Some rel \<longrightarrow> t_start + rel \<le> D) \<longrightarrow>
      (\<exists>w'. simulate h lines w = Inr w')"
  proof (intro impI, elim conjE)
    assume cl: "clock w = t_start # cs" and lp: "length cs \<le> length (polls w)"
      and ll: "length lines \<le> length (filter (\<lambda>c. D < c) cs)"
      and hs: "\<forall>l \<in> set lines. take 9 l = ''telegram='' \<longrightarrow> h (fst (scan_line (drop 9 l))) \<noteq> None"
      and ds: "\<forall>l \<in> set lines. \<forall>rel. snd (scan_line (drop 9 l)) = Some rel \<longrightarrow> t_start + rel \<le> D"
    have "\<exists>w2. simulate_lines h t_start lines (w\<lparr>clock := cs, last_time := t_start\<rparr>) = Inr w2"
      using lp ll by (intro simulate_lines_returns [OF hs ds]) simp_all
    then show "\<exists>w'. simulate h lines w = Inr w'"
      using cl by (auto simp: simulate_def)
  qed
  from a b c c2 c3 d e show ?thesis by blast
qed

theorem simulate_script_witness:
  "simulate example_hex2bin [''# two telegrams'', ''telegram=AA|+0'', ''telegram=BB|+2'']
     \<lparr>clock = [100, 100, 100, 101, 102, 103, 104, 105],
      polls = [True, True, True, True, True, True, True], last_time = 0, events = []\<rparr>
   = Inr \<lparr>clock = [104, 105], polls = [True, True, True, True, True], last_time = 103,
          events = [Handled [0xAA] 100, Handled [0xBB] 103, Stopped]\<rparr>
   \<and> 100 + atoi ''2'' \<le> (103 :: int)
   \<and> atoi ''2'' = strtol_value ''2''
   \<and> atoi ''99999999999'' = 1215752191
   \<and> simulate_lines example_hex2bin 100 [''# two telegrams'', ''telegram=AA'']
       \<lparr>clock = [], polls = [], last_time = 100, events = []\<rparr>
     = Inr \<lparr>clock = [], polls = [], last_time = 100, events = [Handled [0xAA] 100]\<rparr>
   \<and> (\<exists>w'. simulate example_hex2bin [''# two telegrams'', ''telegram=AA|+0'', ''telegram=BB|+2'']
          \<lparr>clock = [100, 100, 100, 101, 102, 103, 104, 105],
           polls = [True, True, True, True, True, True, True], last_time = 0, events = []\<rparr>
        = Inr w')
   \<and> (\<exists>es. [Handled [0xAA] 100, Handled [0xBB] 103, Stopped] = [] @ es @ [Stopped]
          \<and> Stopped \<notin> set es \<and> length es = 2)"
proof -
  let ?lines = "[''# two telegrams'', ''telegram=AA|+0'', ''telegram=BB|+2'']"
  let ?w0 = "\<lparr>clock = [100, 100, 100, 101, 102, 103, 104, 105],
      polls = [True, True, True, True, True, True, True], last_time = 0, events = []\<rparr>"
  let ?w' = "\<lparr>clock = [104, 105], polls = [True, True, True, True, True], last_time = 103,
          events = [Handled [0xAA] 100, Handled [0xBB] 103, Stopped]\<rparr>"
  let ?wb = "\<lparr>clock = [100, 101, 102, 103, 104, 105],
      polls = [True, True, True, True, True, True, True], last_time = 100,
      events = [Handled [0xAA] 100]\<rparr>"
  let ?w1 = "\<lparr>clock = [104, 105], polls = [True, True, True, True, True], last_time = 103,
      events = [Handled [0xAA] 100]\<rparr>"
  let ?we = "\<lparr>clock = [], polls = [], last_time = 100, events = []\<rparr>"
  have at: "atoi ''2'' = 2" "atoi ''0'' = 0" "atoi ''99999999999'' = 1215752191"
    by (simp_all add: atoi_def strtol_def strtol_value_def isspace_char_def isdigit_char_def)
  have fits: "- (2 ^ 31) \<le> strtol_value ''2'' \<and> strtol_value ''2'' < 2 ^ 31"
    by (simp add: strtol_value_def isspace_char_def isdigit_char_def)
  from simulate_script [where secs = "''2''"] fits
  have same: "atoi ''2'' = strtol_value ''2''"
    by blast
  have run: "simulate example_hex2bin ?lines ?w0 = Inr ?w'"
    by (simp add: simulate_def wait_for_def example_hex2bin_def at)
  \<comment> \<open>the script returns: the clock has three readings beyond 102 after the start\<close>
  have hyp_e: "clock ?w0 = 100 # [100, 100, 101, 102, 103, 104, 105]
        \<and> length [100, 100, 101, 102, 103, 104, 105 :: int] \<le> length (polls ?w0)
        \<and> length ?lines \<le> length (filter (\<lambda>c. 102 < c) [100, 100, 101, 102, 103, 104, 105 :: int])
        \<and> (\<forall>l \<in> set ?lines. take 9 l = ''telegram='' \<longrightarrow>
              example_hex2bin (fst (scan_line (drop 9 l))) \<noteq> None)
        \<and> (\<forall>l \<in> set ?lines. \<forall>rel. snd (scan_line (drop 9 l)) = Some rel \<longrightarrow> 100 + rel \<le> 102)"
    by (simp add: example_hex2bin_def at)
  from simulate_script [where lines = ?lines and w = ?w0 and t_start = 100
                          and cs = "[100, 100, 101, 102, 103, 104, 105]" and D = 102
                          and h = example_hex2bin] hyp_e
  have ret: "\<exists>w'. simulate example_hex2bin ?lines ?w0 = Inr w'"
    by blast
  \<comment> \<open>what it did: two telegrams, then the stop\<close>
  from simulate_script [where lines = ?lines and w = ?w0 and w' = ?w' and h = example_hex2bin] run
  have "\<exists>es. events ?w' = events ?w0 @ es @ [Stopped] \<and> Stopped \<notin> set es
            \<and> length es = length (filter (\<lambda>l. take 9 l = ''telegram='') ?lines)"
    by blast
  then have ev: "\<exists>es. [Handled [0xAA] 100, Handled [0xBB] 103, Stopped] = [] @ es @ [Stopped]
          \<and> Stopped \<notin> set es \<and> length es = 2"
    by simp
  \<comment> \<open>the second telegram waits for its time\<close>
  have hyp_c: "CHR ''+'' \<notin> set ''BB'' \<and> example_hex2bin (filter (\<lambda>c. c \<noteq> CHR ''|'') ''BB'') = Some [0xBB]
        \<and> wait_for 100 (atoi ''2'') ?wb = Inr ?w1
        \<and> polls ?wb = [True, True] @ polls ?w1 \<and> (\<forall>q \<in> set [True, True]. q)"
    by (simp add: example_hex2bin_def wait_for_def at)
  from simulate_script [where hex = "''BB''" and secs = "''2''" and w = ?wb and w_after = ?w1
                          and st = 100 and h = example_hex2bin and p = "[0xBB]"
                          and used = "[True, True]"] hyp_c
  have "100 + atoi ''2'' \<le> last_time ?w1"
    by blast
  then have late: "100 + atoi ''2'' \<le> (103 :: int)" by simp
  \<comment> \<open>a comment line is ignored and a telegram without a time is handed over at once\<close>
  have hyp_a: "take 9 ''# two telegrams'' \<noteq> ''telegram=''" by simp
  have hyp_b: "CHR ''+'' \<notin> set ''AA''
        \<and> example_hex2bin (filter (\<lambda>c. c \<noteq> CHR ''|'') ''AA'') = Some [0xAA]"
    by (simp add: example_hex2bin_def)
  from simulate_script [where l = "''# two telegrams''" and ls = "[''telegram=AA'']" and w = ?we
                          and st = 100 and h = example_hex2bin] hyp_a
  have "simulate_lines example_hex2bin 100 [''# two telegrams'', ''telegram=AA''] ?we
          = simulate_lines example_hex2bin 100 [''telegram=AA''] ?we"
    by blast
  also from simulate_script [where body = "''AA''" and ls = "[]" and w = ?we and p = "[0xAA]"
                          and st = 100 and h = example_hex2bin] hyp_b
  have "simulate_lines example_hex2bin 100 [''telegram=AA''] ?we
          = simulate_lines example_hex2bin 100 []
              (?we\<lparr>events := events ?we @ [Handled [0xAA] (last_time ?we)]\<rparr>)"
    by simp
  finally have now: "simulate_lines example_hex2bin 100 [''# two telegrams'', ''telegram=AA''] ?we
     = Inr \<lparr>clock = [], polls = [], last_time = 100, events = [Handled [0xAA] 100]\<rparr>"
    by simp
  from run late same at(3) now ret ev show ?thesis by blast
qed

text \<open>
  C8 as stated fails when the manager stops during the wait: the loop is left and the
  telegram is handed over before its time.  Started at 1000, the telegram due at 1005 is
  handed over when the clock last read 1002.
\<close>

theorem simulate_early_counterexample:
  "simulate example_hex2bin [''telegram=AA|+5'']
     \<lparr>clock = [1000, 1000, 1001, 1002], polls = [True, False], last_time = 0, events = []\<rparr>
   = Inr \<lparr>clock = [], polls = [], last_time = 1002,
          events = [Handled [0xAA] 1002, Stopped]\<rparr>
   \<and> (1002 :: int) < 1000 + atoi ''5''"
  by (simp add: simulate_def wait_for_def example_hex2bin_def atoi_def strtol_def
        strtol_value_def isspace_char_def isdigit_char_def)

end
